theory Spec2Isabelle
  imports Main "HOL-Library.Char_ord" "HOL-Library.List_Lexorder"
begin

section \<open>Text of a document: Python strings as code-point lists\<close>

text \<open>
  The text handed to the speech stage is a Python \<open>str\<close>: a sequence of Unicode code
  points, and \<open>len\<close> counts code points. It is modelled as a list of code points
  (\<open>nat\<close>). Object keys, status values and messages are ASCII literals of the source and
  are modelled as \<open>string\<close>.
\<close>

type_synonym pystr = "nat list"

text \<open>
  The characters \<open>str.split()\<close> (no argument) treats as separators: the code points for
  which CPython's \<open>Py_UNICODE_ISSPACE\<close> holds.
\<close>

definition isspace :: "nat \<Rightarrow> bool" where
  "isspace c \<longleftrightarrow>
     (9 \<le> c \<and> c \<le> 13) \<or> (28 \<le> c \<and> c \<le> 32) \<or> c = 133 \<or> c = 160 \<or> c = 5760 \<or>
     (8192 \<le> c \<and> c \<le> 8202) \<or> c = 8232 \<or> c = 8233 \<or> c = 8239 \<or> c = 8287 \<or> c = 12288"

text \<open>
  \<open>s.split()\<close>: the maximal runs of non-whitespace characters, in order. \<open>cur\<close> is the
  run being read.
\<close>

fun split_run :: "pystr \<Rightarrow> pystr \<Rightarrow> pystr list" where
  "split_run cur [] = (if cur = [] then [] else [cur])"
| "split_run cur (c # cs) =
     (if isspace c then (if cur = [] then split_run [] cs else cur # split_run [] cs)
      else split_run (cur @ [c]) cs)"

definition py_split :: "pystr \<Rightarrow> pystr list" where
  "py_split s = split_run [] s"

text \<open>A word: a non-empty string without whitespace.\<close>

definition word_ok :: "pystr \<Rightarrow> bool" where
  "word_ok w \<longleftrightarrow> w \<noteq> [] \<and> (\<forall>c\<in>set w. \<not> isspace c)"

text \<open>\<open>sep.join(xs)\<close>.\<close>

fun py_join :: "'a list \<Rightarrow> 'a list list \<Rightarrow> 'a list" where
  "py_join sep [] = []"
| "py_join sep [x] = x"
| "py_join sep (x # y # ys) = x @ sep @ py_join sep (y # ys)"

text \<open>The separator \<open>" "\<close> of \<open>split_text\<close>.\<close>

definition SP :: pystr where
  "SP = [32]"

section \<open>Speech stage: \<open>split_text\<close>\<close>

definition MAX_CHARS :: nat where
  "MAX_CHARS = 190000"

text \<open>
  The \<open>for word in words\<close> loop of \<open>split_text\<close>, on the pair \<open>(chunks, current_chunk)\<close>.
  The limit is an argument here; the source fixes it to \<open>MAX_CHARS\<close>.
\<close>

fun split_loop :: "nat \<Rightarrow> pystr list \<Rightarrow> pystr list \<Rightarrow> pystr list \<Rightarrow> pystr list \<times> pystr list" where
  "split_loop limit [] chunks current_chunk = (chunks, current_chunk)"
| "split_loop limit (word # words) chunks current_chunk =
     (if length (py_join SP (current_chunk @ [word])) \<le> limit
      then split_loop limit words chunks (current_chunk @ [word])
      else split_loop limit words (chunks @ [py_join SP current_chunk]) [word])"

definition split_text_lim :: "nat \<Rightarrow> pystr \<Rightarrow> pystr list" where
  "split_text_lim limit s =
     (case split_loop limit (py_split s) [] [] of
        (chunks, current_chunk) \<Rightarrow>
          if current_chunk \<noteq> [] then chunks @ [py_join SP current_chunk] else chunks)"

definition split_text :: "pystr \<Rightarrow> pystr list" where
  "split_text s = split_text_lim MAX_CHARS s"


section \<open>Exceptions, responses and the shared stores\<close>

text \<open>
  The exceptions that cross the functions of the handlers, each with its message. All of
  them are instances of Python's \<open>Exception\<close>; only the first is a botocore
  \<open>ClientError\<close>. \<open>Exception2 a b\<close> is \<open>Exception(a, b)\<close>, an exception built from two
  arguments.
\<close>

datatype exn =
    is_ClientError: ClientError string
  | BotoCoreError string
  | KeyError string
  | IndexError string
  | ValueError string
  | UnboundLocalError string
  | Exception string
  | Exception2 string string

text \<open>
  \<open>repr(s)\<close> for a string of code points below 256. The string is written in single
  quotes, or in double quotes when it has a single quote and no double quote; the quote
  character and the backslash are escaped with a backslash; tab, line feed and carriage
  return are written \<open>\t\<close>, \<open>\n\<close>, \<open>\r\<close>, and every other character that is not printable
  is written \<open>\xhh\<close> with two lower-case hexadecimal digits.
\<close>

definition hex2 :: "nat \<Rightarrow> string" where
  "hex2 n = [''0123456789abcdef'' ! (n div 16), ''0123456789abcdef'' ! (n mod 16)]"

definition repr_char :: "char \<Rightarrow> char \<Rightarrow> string" where
  "repr_char quote c =
     (let n = (of_char c :: nat)
      in if c = quote \<or> c = CHR 0x5C then [CHR 0x5C, c]
         else if c = CHR 0x09 then [CHR 0x5C, CHR ''t'']
         else if c = CHR 0x0A then [CHR 0x5C, CHR ''n'']
         else if c = CHR 0x0D then [CHR 0x5C, CHR ''r'']
         else if n < 32 \<or> n = 127 then [CHR 0x5C, CHR ''x''] @ hex2 n
         else if n < 127 then [c]
         else if n \<le> 160 \<or> n = 173 then [CHR 0x5C, CHR ''x''] @ hex2 n
         else [c])"

definition py_repr :: "string \<Rightarrow> string" where
  "py_repr s =
     (let quote = (if CHR 0x27 \<in> set s \<and> CHR 0x22 \<notin> set s then CHR 0x22 else CHR 0x27)
      in [quote] @ concat (map (repr_char quote) s) @ [quote])"

text \<open>
  \<open>str(e)\<close>: the message; for a \<open>KeyError\<close> the \<open>repr\<close> of its key, and for an exception
  built from two arguments the \<open>repr\<close> of the pair.
\<close>

fun str_exn :: "exn \<Rightarrow> string" where
  "str_exn (ClientError m) = m"
| "str_exn (BotoCoreError m) = m"
| "str_exn (KeyError k) = py_repr k"
| "str_exn (IndexError m) = m"
| "str_exn (ValueError m) = m"
| "str_exn (UnboundLocalError m) = m"
| "str_exn (Exception m) = m"
| "str_exn (Exception2 a b) = ''('' @ py_repr a @ '', '' @ py_repr b @ '')''"

text \<open>\<open>str(n)\<close> for a non-negative integer.\<close>

function str_nat :: "nat \<Rightarrow> string" where
  "str_nat n = (if n < 10 then [char_of (48 + n)] else str_nat (n div 10) @ [char_of (48 + n mod 10)])"
  by pat_completeness auto
termination
  by (relation "measure (\<lambda>n. n)") auto

declare str_nat.simps [simp del]

text \<open>\<open>str(i)\<close> for an integer.\<close>

definition str_int :: "int \<Rightarrow> string" where
  "str_int i = (if i < 0 then CHR ''-'' # str_nat (nat (- i)) else str_nat (nat i))"

text \<open>
  The values handed to \<open>json.dumps\<close>, and the \<open>body\<close> of a response: either a plain
  string or the dump of a value.
\<close>

datatype json = JStr string | JNum int | JArr "json list" | JObj "(string \<times> json) list"

datatype body = Plain string | Dumps json

record response =
  statusCode :: int
  body :: body

text \<open>
  The object store maps (bucket, key) to the stored bytes; the task table maps a
  reference key to the item's attributes. \<open>clock\<close> is the wall clock in milliseconds and
  \<open>poll_log\<close> records every status query sent to the speech service, with the clock
  reading at which it was sent.
\<close>

type_synonym item = "string \<rightharpoonup> string"

record world =
  objects :: "string \<times> string \<rightharpoonup> string"
  table :: "string \<rightharpoonup> item"
  clock :: nat
  poll_log :: "(string \<times> nat) list"

text \<open>
  \<open>table.update_item(Key={"reference_key": k}, UpdateExpression="SET TaskStatus = :status")\<close>:
  sets the attribute, creating the item when the key is new.
\<close>

definition update_item :: "(string \<rightharpoonup> item) \<Rightarrow> string \<Rightarrow> string \<Rightarrow> (string \<rightharpoonup> item)" where
  "update_item tbl reference_key status =
     tbl(reference_key \<mapsto>
       (case tbl reference_key of
          None \<Rightarrow> [''reference_key'' \<mapsto> reference_key, ''TaskStatus'' \<mapsto> status]
        | Some it \<Rightarrow> it(''TaskStatus'' \<mapsto> status)))"

definition status_of :: "world \<Rightarrow> string \<Rightarrow> string option" where
  "status_of w reference_key =
     (case table w reference_key of None \<Rightarrow> None | Some it \<Rightarrow> it ''TaskStatus'')"

section \<open>Extract-text stage (\<open>image_converter\<close>)\<close>

text \<open>An entry of an object listing (only \<open>Key\<close> is read) and a page of the paginator.\<close>

record s3_object =
  Key :: string

record s3_page =
  Contents :: "s3_object list option"

text \<open>
  The SNS event after \<open>json.loads(event["Records"][0]["Sns"]["Message"])\<close>: the fault
  that expression raises, or the message dictionary.
\<close>

datatype sns_event = Malformed exn | Message "string \<rightharpoonup> string"

text \<open>
  The services the stage calls. \<open>paginate\<close> is the listing of a prefix, page by page;
  \<open>invoke_model\<close> is the body of the \<open>try\<close> of \<open>process_image_claude\<close> (the call to the
  model and the reading of its reply) as a function of the image bytes; the \<open>_fault\<close>
  fields give the exception, if any, that a call with these arguments raises;
  \<open>utf8_encode\<close> is the encoding of a \<open>str\<close> body.
\<close>

record ic_env =
  paginate :: "string \<Rightarrow> string \<Rightarrow> exn + s3_page list"
  get_object_fault :: "string \<Rightarrow> string \<Rightarrow> exn option"
  invoke_model :: "string \<Rightarrow> exn + pystr"
  put_object_fault :: "string \<Rightarrow> string \<Rightarrow> exn option"
  update_item_fault :: "string \<Rightarrow> string \<Rightarrow> exn option"
  utf8_encode :: "pystr \<Rightarrow> string"

definition update_dynamodb :: "ic_env \<Rightarrow> string \<Rightarrow> string \<Rightarrow> world \<Rightarrow> exn + world" where
  "update_dynamodb env reference_key status w =
     (case update_item_fault env reference_key status of
        Some e \<Rightarrow> Inl e
      | None \<Rightarrow> Inr (w\<lparr>table := update_item (table w) reference_key status\<rparr>))"

definition process_image_claude :: "ic_env \<Rightarrow> string \<Rightarrow> exn + pystr" where
  "process_image_claude env image_base64 =
     (case invoke_model env image_base64 of
        Inl (KeyError k) \<Rightarrow>
          Inl (Exception (''Failed to parse Bedrock response: '' @ str_exn (KeyError k)))
      | Inl e \<Rightarrow> Inl e
      | Inr extracted_text \<Rightarrow> Inr extracted_text)"

definition ic_get_object :: "ic_env \<Rightarrow> world \<Rightarrow> string \<Rightarrow> string \<Rightarrow> exn + string" where
  "ic_get_object env w bucket key =
     (case get_object_fault env bucket key of
        Some e \<Rightarrow> Inl e
      | None \<Rightarrow>
          (case objects w (bucket, key) of
             None \<Rightarrow> Inl (ClientError ''NoSuchKey'')
           | Some content \<Rightarrow> Inr content))"

text \<open>The body of the inner \<open>try\<close> for one image: fetch it and extract its text.\<close>

definition image_text :: "ic_env \<Rightarrow> world \<Rightarrow> string \<Rightarrow> string \<Rightarrow> exn + pystr" where
  "image_text env w bucket image_key =
     (case ic_get_object env w bucket image_key of
        Inl e \<Rightarrow> Inl e
      | Inr image_content \<Rightarrow> process_image_claude env image_content)"

text \<open>
  The loop over the sorted listing: the text of an image is appended with \<open>"\n\n"\<close>; an
  image whose step raises is logged and skipped.
\<close>

fun process_images :: "ic_env \<Rightarrow> world \<Rightarrow> string \<Rightarrow> s3_object list \<Rightarrow> pystr \<Rightarrow> pystr" where
  "process_images env w bucket [] all_text_claude = all_text_claude"
| "process_images env w bucket (obj # objs) all_text_claude =
     (case image_text env w bucket (Key obj) of
        Inr t \<Rightarrow> process_images env w bucket objs (all_text_claude @ t @ [10, 10])
      | Inl e \<Rightarrow> process_images env w bucket objs all_text_claude)"

definition ic_put_object :: "ic_env \<Rightarrow> string \<Rightarrow> string \<Rightarrow> string \<Rightarrow> world \<Rightarrow> exn + world" where
  "ic_put_object env bucket key content w =
     (case put_object_fault env bucket key of
        Some e \<Rightarrow> Inl e
      | None \<Rightarrow> Inr (w\<lparr>objects := (objects w)((bucket, key) \<mapsto> content)\<rparr>))"

text \<open>
  The loop over the pages of the listing: \<open>all_objects.extend(page["Contents"])\<close> for
  each page that has \<open>Contents\<close>.
\<close>

definition collect_contents :: "s3_page list \<Rightarrow> s3_object list" where
  "collect_contents pages =
     concat (map (\<lambda>page. case Contents page of None \<Rightarrow> [] | Some c \<Rightarrow> c) pages)"

text \<open>
  The \<open>try\<close> block of \<open>lambda_handler\<close> from the point where \<open>reference_key\<close> is bound:
  the response it returns, or the exception that reaches the \<open>except\<close> clause; each with
  the stores as they are then.
\<close>

definition ic_process :: "ic_env \<Rightarrow> (string \<rightharpoonup> string) \<Rightarrow> string \<Rightarrow> world \<Rightarrow> exn \<times> world + response \<times> world" where
  "ic_process env message reference_key w =
     (case message ''bucket'' of
        None \<Rightarrow> Inl (KeyError ''bucket'', w)
      | Some bucket \<Rightarrow>
          (case paginate env bucket (''images/'' @ reference_key @ ''/'') of
             Inl e \<Rightarrow> Inl (e, w)
           | Inr pages \<Rightarrow>
               (let all_objects = collect_contents pages
                in if all_objects = [] then
                     (case update_dynamodb env reference_key ''pdf-to-images is failed'' w of
                        Inl e \<Rightarrow> Inl (e, w)
                      | Inr w1 \<Rightarrow>
                          Inr (\<lparr>statusCode = 200, body = Dumps (JStr ''No images found to process'')\<rparr>, w1))
                   else
                     (let all_text_claude = process_images env w bucket (sort_key Key all_objects) [];
                          claude_output_key = ''download/'' @ reference_key @ ''/formatted_output.txt''
                      in case ic_put_object env bucket claude_output_key (utf8_encode env all_text_claude) w of
                           Inl e \<Rightarrow> Inl (e, w)
                         | Inr w1 \<Rightarrow>
                             (case update_dynamodb env reference_key ''images-to-text conversion is completed'' w1 of
                                Inl e \<Rightarrow> Inl (e, w1)
                              | Inr w2 \<Rightarrow>
                                  Inr (\<lparr>statusCode = 200,
                                        body = Dumps (JStr ''Images processed and text generated successfully!'')\<rparr>,
                                       w2))))))"

text \<open>
  \<open>lambda_handler\<close> of the stage: the response returned, or the exception that leaves the
  handler, with the final stores. The \<open>except\<close> clause writes the failure status and ends
  in \<open>raise\<close>; when the fault came before \<open>reference_key\<close> was bound, the status write
  itself raises \<open>UnboundLocalError\<close> (with the message of Python 3.11 and later).
\<close>

definition unbound_reference_key :: exn where
  "unbound_reference_key =
     UnboundLocalError ''cannot access local variable 'reference_key' where it is not associated with a value''"

definition ic_lambda_handler :: "ic_env \<Rightarrow> sns_event \<Rightarrow> world \<Rightarrow> (exn + response) \<times> world" where
  "ic_lambda_handler env event w =
     (case event of
        Malformed e \<Rightarrow> (Inl unbound_reference_key, w)
      | Message message \<Rightarrow>
          (case message ''reference_key'' of
             None \<Rightarrow> (Inl unbound_reference_key, w)
           | Some reference_key \<Rightarrow>
               (case ic_process env message reference_key w of
                  Inr (resp, w1) \<Rightarrow> (Inr resp, w1)
                | Inl (e, w1) \<Rightarrow>
                    (case update_dynamodb env reference_key ''images-to-text conversion is failed'' w1 of
                       Inl e2 \<Rightarrow> (Inl e2, w1)
                     | Inr w2 \<Rightarrow> (Inl e, w2)))))"


section \<open>Synthesize-speech stage (\<open>polly_invoker\<close>)\<close>

text \<open>\<open>s.split(sep)\<close> for a one-character separator; \<open>cur\<close> is the field being read.\<close>

fun split_sep :: "char \<Rightarrow> string \<Rightarrow> string \<Rightarrow> string list" where
  "split_sep sep cur [] = [cur]"
| "split_sep sep cur (c # cs) =
     (if c = sep then cur # split_sep sep [] cs else split_sep sep (cur @ [c]) cs)"

text \<open>\<open>xs[i]\<close> for \<open>i \<ge> 0\<close>, raising \<open>IndexError\<close> out of range.\<close>

definition index :: "'a list \<Rightarrow> nat \<Rightarrow> exn + 'a" where
  "index xs i = (if i < length xs then Inr (xs ! i) else Inl (IndexError ''list index out of range''))"


record synthesis_task =
  TaskStatus :: string
  OutputUri :: string


text \<open>
  The services the stage calls. \<open>get_speech_synthesis_task env task_id k\<close> is the reply to
  the status query that is the \<open>k\<close>-th one of the run; \<open>poll_latency env k\<close> is the time
  that query takes and \<open>oversleep env k\<close> the time by which the sleep after it exceeds
  the 5 seconds asked for (milliseconds). The \<open>_fault\<close> fields give the exception, if
  any, that a call with these arguments raises; \<open>utf8_decode\<close> is
  \<open>bytes.decode("utf-8")\<close>. The speech service writes its output objects on its own:
  \<open>objects\<close> is the store as the handler's calls find it.
\<close>

record polly_env =
  get_item_fault :: "string \<Rightarrow> exn option"
  s3_get_fault :: "string \<Rightarrow> string \<Rightarrow> exn option"
  utf8_decode :: "string \<Rightarrow> exn + pystr"
  start_speech_synthesis_task :: "string \<Rightarrow> string \<Rightarrow> pystr \<Rightarrow> string \<Rightarrow> string \<Rightarrow> exn + string"
  get_speech_synthesis_task :: "string \<Rightarrow> nat \<Rightarrow> exn + synthesis_task"
  poll_latency :: "nat \<Rightarrow> nat"
  oversleep :: "nat \<Rightarrow> nat"
  s3_copy_fault :: "string \<Rightarrow> string \<Rightarrow> string \<Rightarrow> exn option"
  s3_delete_fault :: "string \<Rightarrow> string \<Rightarrow> exn option"
  s3_put_fault :: "string \<Rightarrow> string \<Rightarrow> exn option"
  status_write_fault :: "string \<Rightarrow> string \<Rightarrow> exn option"





text \<open>
  The \<open>while time.time() < end_time\<close> loop of \<open>wait_for_polly_task\<close>. Each round reads
  the clock, sends one status query (logged with the reading) and, when the task is
  neither completed nor failed, sleeps for at least 5 seconds.
\<close>

function wait_loop :: "polly_env \<Rightarrow> string \<Rightarrow> nat \<Rightarrow> world \<Rightarrow> (exn + string) \<times> world" where
  "wait_loop env task_id end_time w =
     (if clock w < end_time then
        (let k = length (poll_log w);
             w1 = w\<lparr>clock := clock w + poll_latency env k,
                    poll_log := poll_log w @ [(task_id, clock w)]\<rparr>
         in case get_speech_synthesis_task env task_id k of
              Inl e \<Rightarrow> (Inl e, w1)
            | Inr task_status \<Rightarrow>
                if TaskStatus task_status = ''completed''
                then (Inr (last (split_sep CHR ''/'' [] (OutputUri task_status))), w1)
                else if TaskStatus task_status = ''failed''
                then (Inl (Exception (''Speech synthesis task failed: '' @ task_id)), w1)
                else wait_loop env task_id end_time (w1\<lparr>clock := clock w1 + 5000 + oversleep env k\<rparr>))
      else (Inl (Exception (''Speech synthesis task timed out: '' @ task_id)), w))"
  by pat_completeness auto
termination
  by (relation "measure (\<lambda>(env, task_id, end_time, w). end_time - clock w)") auto

declare wait_loop.simps [simp del]

definition wait_for_polly_task :: "polly_env \<Rightarrow> string \<Rightarrow> world \<Rightarrow> (exn + string) \<times> world" where
  "wait_for_polly_task env task_id w = wait_loop env task_id (clock w + 300 * 1000) w"

definition s3_copy_object :: "polly_env \<Rightarrow> string \<Rightarrow> string \<Rightarrow> string \<Rightarrow> world \<Rightarrow> exn + world" where
  "s3_copy_object env bucket source_key destination_key w =
     (case s3_copy_fault env bucket source_key destination_key of
        Some e \<Rightarrow> Inl e
      | None \<Rightarrow>
          (case objects w (bucket, source_key) of
             None \<Rightarrow> Inl (ClientError ''NoSuchKey'')
           | Some content \<Rightarrow> Inr (w\<lparr>objects := (objects w)((bucket, destination_key) \<mapsto> content)\<rparr>)))"

definition s3_delete_object :: "polly_env \<Rightarrow> string \<Rightarrow> string \<Rightarrow> world \<Rightarrow> exn + world" where
  "s3_delete_object env bucket key w =
     (case s3_delete_fault env bucket key of
        Some e \<Rightarrow> Inl e
      | None \<Rightarrow> Inr (w\<lparr>objects := (objects w)((bucket, key) := None)\<rparr>))"



text \<open>
  \<open>rename_to_audio_mp3\<close>: copy the source to the canonical key, then delete the source.
  Any exception of the two calls is raised to the caller; the store keeps what was done
  before it.
\<close>

definition rename_to_audio_mp3 :: "polly_env \<Rightarrow> string \<Rightarrow> string \<Rightarrow> string \<Rightarrow> world \<Rightarrow> (exn + string) \<times> world" where
  "rename_to_audio_mp3 env bucket source_key reference_key w =
     (let destination_key = ''download/'' @ reference_key @ ''/Audio.mp3''
      in case s3_copy_object env bucket source_key destination_key w of
           Inl e \<Rightarrow> (Inl e, w)
         | Inr w1 \<Rightarrow>
             (case s3_delete_object env bucket source_key w1 of
                Inl e \<Rightarrow> (Inl e, w1)
              | Inr w2 \<Rightarrow> (Inr destination_key, w2)))"







section \<open>Rasterize stage (\<open>codebuild_artifacts\<close>)\<close>

text \<open>
  The DynamoDB Stream event, a value decoded from JSON: an event that is empty or has no
  \<open>Records\<close> (with the text \<open>json.dumps\<close> gives for it), an event whose
  \<open>event["Records"][0]["dynamodb"]["NewImage"]\<close> raises, or the new image, which maps the
  name of an attribute to its typed value (\<open>{"S": "..."}\<close>).
\<close>

type_synonym new_image = "string \<rightharpoonup> (string \<rightharpoonup> string)"

datatype stream_event = NoRecords string | BadRecord exn | NewImage new_image

record lambda_context =
  invoked_function_arn :: string

text \<open>
  A rasterized page, as \<open>image.save(img_byte_arr, format="PNG")\<close> finds it: the PNG bytes,
  or the exception raised.
\<close>

type_synonym page_image = "exn + string"

text \<open>
  The process environment, the library calls and the services of the stage.
  \<open>urlparse env s\<close> gives the \<open>netloc\<close> and the \<open>path\<close> of \<open>urlparse(s)\<close>, \<open>to_int env s\<close> is
  \<open>int(s)\<close>, and \<open>convert_from_path env pdf first last\<close> is the conversion of the
  downloaded file: each gives its value, or the exception it raises. The \<open>_fault\<close>
  fields give the exception, if any, that a call with these arguments raises:
  \<open>download_fault\<close> for the body of the download \<open>try\<close>, \<open>image_put_fault\<close> for
  \<open>put_object\<close>, \<open>table_fault\<close> for \<open>update_item\<close> and \<open>publish_fault\<close> for \<open>sns.publish\<close>.
\<close>

record rz_env =
  os_environ :: "string \<rightharpoonup> string"
  urlparse :: "string \<Rightarrow> exn + string \<times> string"
  to_int :: "string \<Rightarrow> exn + int"
  download_fault :: "string \<Rightarrow> string \<Rightarrow> exn option"
  convert_from_path :: "string \<Rightarrow> int \<Rightarrow> int \<Rightarrow> exn + page_image list"
  image_put_fault :: "string \<Rightarrow> string \<Rightarrow> exn option"
  table_fault :: "string \<Rightarrow> string \<Rightarrow> exn option"
  publish_fault :: "string \<Rightarrow> json \<Rightarrow> exn option"

text \<open>\<open>parse_s3_path\<close>: the \<open>netloc\<close>, and the \<open>path\<close> without its leading slashes.\<close>

definition parse_s3_path :: "rz_env \<Rightarrow> string \<Rightarrow> exn + string \<times> string" where
  "parse_s3_path env s3_path =
     (case urlparse env s3_path of
        Inl e \<Rightarrow> Inl e
      | Inr (netloc, path) \<Rightarrow> Inr (netloc, dropWhile (\<lambda>c. c = CHR ''/'') path))"

text \<open>
  \<open>update_dynamodb_status\<close> of this module: every exception of its body (a missing
  \<open>DYNAMODB_TABLE\<close>, a failed write) is logged and swallowed.
\<close>

definition rz_update_dynamodb_status :: "rz_env \<Rightarrow> string \<Rightarrow> string \<Rightarrow> world \<Rightarrow> world" where
  "rz_update_dynamodb_status env reference_key status w =
     (case os_environ env ''DYNAMODB_TABLE'' of
        None \<Rightarrow> w
      | Some table_name \<Rightarrow>
          (case table_fault env reference_key status of
             Some e \<Rightarrow> w
           | None \<Rightarrow> w\<lparr>table := update_item (table w) reference_key status\<rparr>))"

text \<open>\<open>dynamodb_item[name]["S"]\<close>.\<close>

definition attribute_S :: "new_image \<Rightarrow> string \<Rightarrow> exn + string" where
  "attribute_S dynamodb_item name =
     (case dynamodb_item name of
        None \<Rightarrow> Inl (KeyError name)
      | Some v \<Rightarrow> (case v ''S'' of None \<Rightarrow> Inl (KeyError ''S'') | Some s \<Rightarrow> Inr s))"

text \<open>
  The rest of the first inner \<open>try\<close>, after \<open>reference_key\<close> is bound: the bucket and key
  of the document and the page range.
\<close>

definition read_task :: "rz_env \<Rightarrow> new_image \<Rightarrow> exn + string \<times> string \<times> int \<times> int" where
  "read_task env dynamodb_item =
     (case attribute_S dynamodb_item ''S3Path'' of
        Inl e \<Rightarrow> Inl e
      | Inr s3_path \<Rightarrow>
          (case parse_s3_path env s3_path of
             Inl e \<Rightarrow> Inl e
           | Inr (bucket, key) \<Rightarrow>
               (case attribute_S dynamodb_item ''StartPage'' of
                  Inl e \<Rightarrow> Inl e
                | Inr start_text \<Rightarrow>
                    (case to_int env start_text of
                       Inl e \<Rightarrow> Inl e
                     | Inr start_page \<Rightarrow>
                         (case attribute_S dynamodb_item ''EndPage'' of
                            Inl e \<Rightarrow> Inl e
                          | Inr end_text \<Rightarrow>
                              (case to_int env end_text of
                                 Inl e \<Rightarrow> Inl e
                               | Inr end_page \<Rightarrow> Inr (bucket, key, start_page, end_page)))))))"

text \<open>The body of the download \<open>try\<close>: the bytes of the document.\<close>

definition download_fileobj :: "rz_env \<Rightarrow> world \<Rightarrow> string \<Rightarrow> string \<Rightarrow> exn + string" where
  "download_fileobj env w bucket key =
     (case download_fault env bucket key of
        Some e \<Rightarrow> Inl e
      | None \<Rightarrow>
          (case objects w (bucket, key) of
             None \<Rightarrow>
               Inl (ClientError ''An error occurred (404) when calling the HeadObject operation: Not Found'')
           | Some pdf \<Rightarrow> Inr pdf))"

text \<open>\<open>f"images/{reference_key}/page_{i+start_page}.png"\<close>, for the page number \<open>n\<close>.\<close>

definition image_key :: "string \<Rightarrow> int \<Rightarrow> string" where
  "image_key reference_key n = ''images/'' @ reference_key @ ''/page_'' @ str_int n @ ''.png''"

text \<open>
  The loop \<open>for i, image in enumerate(images)\<close>: an image is saved as PNG and stored
  under its key, which is appended to \<open>uploaded_images\<close>; an image whose step raises is
  logged and skipped.
\<close>

fun upload_images :: "rz_env \<Rightarrow> string \<Rightarrow> string \<Rightarrow> int \<Rightarrow> nat \<Rightarrow> page_image list \<Rightarrow> string list \<Rightarrow> world \<Rightarrow> string list \<times> world" where
  "upload_images env bucket reference_key start_page i [] uploaded_images w = (uploaded_images, w)"
| "upload_images env bucket reference_key start_page i (png # images) uploaded_images w =
     (case png of
        Inl e \<Rightarrow> upload_images env bucket reference_key start_page (Suc i) images uploaded_images w
      | Inr img_byte_arr \<Rightarrow>
          (case image_put_fault env bucket (image_key reference_key (int i + start_page)) of
             Some e \<Rightarrow> upload_images env bucket reference_key start_page (Suc i) images uploaded_images w
           | None \<Rightarrow>
               upload_images env bucket reference_key start_page (Suc i) images
                 (uploaded_images @ [image_key reference_key (int i + start_page)])
                 (w\<lparr>objects := (objects w)((bucket, image_key reference_key (int i + start_page)) \<mapsto>
                                  img_byte_arr)\<rparr>)))"

text \<open>
  The lines before the \<open>try\<close> of \<open>lambda_handler\<close>: the account is the fifth field of the
  function's ARN, and the topic ARN is built from it and two environment variables (in an
  f-string that nests double quotes, which is Python 3.12).
\<close>

definition sns_topic_arn :: "rz_env \<Rightarrow> lambda_context \<Rightarrow> exn + string" where
  "sns_topic_arn env context =
     (case index (split_sep CHR '':'' [] (invoked_function_arn context)) 4 of
        Inl e \<Rightarrow> Inl e
      | Inr account_id \<Rightarrow>
          (case os_environ env ''AWS_REGION'' of
             None \<Rightarrow> Inl (KeyError ''AWS_REGION'')
           | Some region \<Rightarrow>
               (case os_environ env ''SNS_TOPIC_NAME'' of
                  None \<Rightarrow> Inl (KeyError ''SNS_TOPIC_NAME'')
                | Some topic_name \<Rightarrow>
                    Inr (''arn:aws:sns:'' @ region @ '':'' @ account_id @ '':'' @ topic_name))))"

text \<open>
  The \<open>try\<close> block of \<open>lambda_handler\<close> from the point where \<open>reference_key\<close> is bound:
  the exception that reaches the outer \<open>except\<close> clause, with the stores as they are
  then; or the response returned, with the final stores and the notification published
  (topic and message), if any. A fault of one of the three inner \<open>try\<close> blocks is raised
  again as an \<open>Exception\<close> of two arguments; a fault of \<open>sns.publish\<close> is logged and
  swallowed, and so is one of the deletion of the temporary file, which has no other effect.
\<close>

definition rz_process :: "rz_env \<Rightarrow> string \<Rightarrow> new_image \<Rightarrow> string \<Rightarrow> world \<Rightarrow> exn \<times> world + response \<times> world \<times> (string \<times> json) list" where
  "rz_process env topic_arn dynamodb_item reference_key w =
     (case read_task env dynamodb_item of
        Inl e \<Rightarrow> Inl (Exception2 ''Failed to process DynamoDB event: %s'' (str_exn e), w)
      | Inr (bucket, key, start_page, end_page) \<Rightarrow>
          (case download_fileobj env w bucket key of
             Inl e \<Rightarrow> Inl (Exception2 ''Failed to download PDF from S3: %s'' (str_exn e), w)
           | Inr pdf \<Rightarrow>
               (case convert_from_path env pdf start_page end_page of
                  Inl e \<Rightarrow> Inl (Exception2 ''PDF conversion failed: %s'' (str_exn e), w)
                | Inr images \<Rightarrow>
                    (case upload_images env bucket reference_key start_page 0 images [] w of
                       (uploaded_images, w1) \<Rightarrow>
                         (let w2 = rz_update_dynamodb_status env reference_key
                                     ''pdf-to-images conversion is completed'' w1;
                              sns_message = JObj [(''reference_key'', JStr reference_key),
                                                  (''bucket'', JStr bucket),
                                                  (''images'', JArr (map JStr uploaded_images))]
                          in Inr (\<lparr>statusCode = 200,
                                   body = Dumps (JObj
                                     [(''message'', JStr ''PDF processed and images uploaded successfully!''),
                                      (''reference_key'', JStr reference_key),
                                      (''pages_processed'', JNum (int (length images))),
                                      (''images_uploaded'', JArr (map JStr uploaded_images))])\<rparr>,
                                  w2,
                                  (case publish_fault env topic_arn sns_message of
                                     Some e \<Rightarrow> []
                                   | None \<Rightarrow> [(topic_arn, sns_message)])))))))"

text \<open>
  \<open>lambda_handler\<close> of the stage: the response returned, or the exception that leaves the
  handler, with the final stores and the notification published. A fault of the lines
  before the \<open>try\<close> leaves the handler as it is. The outer \<open>except\<close> clause writes the
  failure status and returns a 500 response; when the fault came before \<open>reference_key\<close>
  was bound (an event without \<open>Records\<close>, a new image that cannot be read or has no
  \<open>reference_key\<close>), the status write of the clause raises \<open>UnboundLocalError\<close>.
\<close>

definition rz_lambda_handler :: "rz_env \<Rightarrow> lambda_context \<Rightarrow> stream_event \<Rightarrow> world \<Rightarrow> (exn + response) \<times> world \<times> (string \<times> json) list" where
  "rz_lambda_handler env context event w =
     (case sns_topic_arn env context of
        Inl e \<Rightarrow> (Inl e, w, [])
      | Inr topic_arn \<Rightarrow>
          (case event of
             NoRecords dump \<Rightarrow> (Inl unbound_reference_key, w, [])
           | BadRecord e \<Rightarrow> (Inl unbound_reference_key, w, [])
           | NewImage dynamodb_item \<Rightarrow>
               (case attribute_S dynamodb_item ''reference_key'' of
                  Inl e \<Rightarrow> (Inl unbound_reference_key, w, [])
                | Inr reference_key \<Rightarrow>
                    (case rz_process env topic_arn dynamodb_item reference_key w of
                       Inr (resp, w1, published) \<Rightarrow> (Inr resp, w1, published)
                     | Inl (e, w1) \<Rightarrow>
                         (Inr \<lparr>statusCode = 500,
                               body = Dumps (JObj [(''error'', JStr (''Error processing PDF: '' @ str_exn e)),
                                                   (''reference_key'', JStr reference_key)])\<rparr>,
                          rz_update_dynamodb_status env reference_key ''pdf-to-images conversion is failed'' w1,
                          [])))))"


section \<open>Build trigger with retries (\<open>codebuild_invoker\<close>)\<close>

text \<open>
  The build service. \<open>start_build env project n\<close> is the outcome of the \<open>n\<close>-th
  submission of the run (the identifier of the new build, or the exception raised);
  \<open>batch_get_builds env build_id k\<close> is the outcome of the \<open>k\<close>-th status query about
  that build: the \<open>buildStatus\<close> of each build of the reply, or the exception raised.
\<close>

record cb_env =
  start_build :: "string \<Rightarrow> nat \<Rightarrow> exn + string"
  batch_get_builds :: "string \<Rightarrow> nat \<Rightarrow> exn + string list"

text \<open>
  What the handler has done so far: the number of builds submitted, the number of status
  queries sent about each build, and the sleeps taken (seconds).
\<close>

record cb_world =
  submissions :: nat
  polled :: "string \<Rightarrow> nat"
  sleeps :: "nat list"

text \<open>
  \<open>monitor_build\<close>: \<open>while True\<close>, sleep 10 seconds and query the build; a status other
  than \<open>IN_PROGRESS\<close> ends the loop, a \<open>ClientError\<close> of the query returns \<open>False\<close>.
  The loop runs for as long as the build is reported in progress, so the result is
  \<open>None\<close> when it never ends.
\<close>

partial_function (option) monitor_build :: "cb_env \<Rightarrow> string \<Rightarrow> cb_world \<Rightarrow> ((exn + bool) \<times> cb_world) option" where
  "monitor_build env build_id w =
     (case batch_get_builds env build_id (polled w build_id) of
        Inl e \<Rightarrow>
          Some (if is_ClientError e then Inr False else Inl e,
                w\<lparr>polled := (polled w)(build_id := Suc (polled w build_id)), sleeps := sleeps w @ [10]\<rparr>)
      | Inr builds \<Rightarrow>
          (case builds of
             [] \<Rightarrow>
               Some (Inl (IndexError ''list index out of range''),
                     w\<lparr>polled := (polled w)(build_id := Suc (polled w build_id)), sleeps := sleeps w @ [10]\<rparr>)
           | status # _ \<Rightarrow>
               if status \<noteq> ''IN_PROGRESS''
               then Some (Inr (status = ''SUCCEEDED''),
                          w\<lparr>polled := (polled w)(build_id := Suc (polled w build_id)), sleeps := sleeps w @ [10]\<rparr>)
               else monitor_build env build_id
                      (w\<lparr>polled := (polled w)(build_id := Suc (polled w build_id)), sleeps := sleeps w @ [10]\<rparr>)))"

definition submit_build :: "cb_env \<Rightarrow> string \<Rightarrow> cb_world \<Rightarrow> (exn + string) \<times> cb_world" where
  "submit_build env project_name w =
     (start_build env project_name (submissions w), w\<lparr>submissions := Suc (submissions w)\<rparr>)"

text \<open>
  The loop \<open>while attempt <= max_attempts\<close> of \<open>lambda_handler\<close>. It ends with
  \<open>(success, attempt, build_id)\<close>, or with an exception that is not caught.
\<close>

function attempt_loop :: "cb_env \<Rightarrow> string \<Rightarrow> nat \<Rightarrow> nat \<Rightarrow> string \<Rightarrow> cb_world \<Rightarrow> ((exn + bool \<times> nat \<times> string) \<times> cb_world) option" where
  "attempt_loop env project_name max_attempts attempt build_id w =
     (if attempt \<le> max_attempts then
        (case monitor_build env build_id w of
           None \<Rightarrow> None
         | Some (Inl e, w1) \<Rightarrow> Some (Inl e, w1)
         | Some (Inr build_successful, w1) \<Rightarrow>
             if build_successful then Some (Inr (True, attempt, build_id), w1)
             else if attempt < max_attempts then
               (case submit_build env project_name (w1\<lparr>sleeps := sleeps w1 @ [30]\<rparr>) of
                  (Inl e, w2) \<Rightarrow>
                    if is_ClientError e
                    then attempt_loop env project_name max_attempts (attempt + 1) build_id w2
                    else Some (Inl e, w2)
                | (Inr new_build_id, w2) \<Rightarrow>
                    attempt_loop env project_name max_attempts (attempt + 1) new_build_id w2)
             else attempt_loop env project_name max_attempts (attempt + 1) build_id w1)
      else Some (Inr (False, attempt, build_id), w))"
  by pat_completeness auto
termination
  by (relation "measure (\<lambda>(env, project_name, max_attempts, attempt, build_id, w). Suc max_attempts - attempt)") auto

declare attempt_loop.simps [simp del]

text \<open>
  \<open>lambda_handler\<close>: \<open>event\<close> is the event dictionary and \<open>environ\<close> the value of the
  environment variable \<open>PROJECT_NAME\<close>, if set.
\<close>

definition cb_lambda_handler :: "cb_env \<Rightarrow> (string \<rightharpoonup> string) \<Rightarrow> string option \<Rightarrow> cb_world \<Rightarrow> ((exn + response) \<times> cb_world) option" where
  "cb_lambda_handler env event environ w =
     (let project_name =
            (case event ''project_name'' of
               None \<Rightarrow> environ
             | Some p \<Rightarrow> if p \<noteq> [] then Some p else environ)
      in case project_name of
           None \<Rightarrow> Some (Inr \<lparr>statusCode = 400, body = Plain ''Missing required parameter: project_name''\<rparr>, w)
         | Some project_name \<Rightarrow>
             if project_name = []
             then Some (Inr \<lparr>statusCode = 400, body = Plain ''Missing required parameter: project_name''\<rparr>, w)
             else
               (case submit_build env project_name w of
                  (Inl e, w1) \<Rightarrow>
                    if is_ClientError e
                    then Some (Inr \<lparr>statusCode = 500, body = Plain (''Failed to start build: '' @ str_exn e)\<rparr>, w1)
                    else Some (Inl e, w1)
                | (Inr build_id, w1) \<Rightarrow>
                    (case attempt_loop env project_name 3 1 build_id w1 of
                       None \<Rightarrow> None
                     | Some (Inl e, w2) \<Rightarrow> Some (Inl e, w2)
                     | Some (Inr (success, attempt, final_build_id), w2) \<Rightarrow>
                         if \<not> success
                         then Some (Inr \<lparr>statusCode = 500,
                                         body = Plain (''Failed to complete build successfully after '' @ str_nat 3 @ '' attempts'')\<rparr>,
                                    w2)
                         else Some (Inr \<lparr>statusCode = 200,
                                         body = Dumps (JObj [(''buildId'', JStr final_build_id),
                                                             (''status'', JStr ''SUCCESS''),
                                                             (''message'', JStr (''Build completed successfully on attempt '' @ str_nat attempt))])\<rparr>,
                                    w2))))"

section \<open>Client query (\<open>track_execution\<close>)\<close>

text \<open>
  A paginated \<open>table.scan\<close>: each call examines one segment of the table and either
  raises or returns the items of the segment that pass the filter
  \<open>Attr("Username").eq(username)\<close>; \<open>LastEvaluatedKey\<close> is set exactly when a segment is
  left. The list holds, for each segment in turn, the exception the call raises or the
  items stored in the segment.
\<close>

fun scan_all :: "string \<Rightarrow> (exn + item list) list \<Rightarrow> item list \<Rightarrow> exn + item list" where
  "scan_all username [] items = Inr items"
| "scan_all username (Inl e # segments) items = Inl e"
| "scan_all username (Inr stored # segments) items =
     scan_all username segments (items @ filter (\<lambda>it. it ''Username'' = Some username) stored)"

text \<open>The dictionary built for one item; \<open>item["reference_key"]\<close> raises when absent.\<close>

definition make_request :: "item \<Rightarrow> exn + (string \<times> string) list" where
  "make_request it =
     (case it ''reference_key'' of
        None \<Rightarrow> Inl (KeyError ''reference_key'')
      | Some reference_key \<Rightarrow>
          Inr [(''reference_key'', reference_key),
               (''fileName'', case it ''FileName'' of None \<Rightarrow> ''Unknown file'' | Some f \<Rightarrow> f),
               (''TaskStatus'',
                  if it ''TaskStatus'' = Some ''Voice-is-Ready'' then ''Voice-is-Ready''
                  else ''Work-In-Progress'')])"

fun make_requests :: "item list \<Rightarrow> (string \<times> string) list list \<Rightarrow> exn + (string \<times> string) list list" where
  "make_requests [] requests = Inr requests"
| "make_requests (it # items) requests =
     (case make_request it of
        Inl e \<Rightarrow> Inl e
      | Inr request \<Rightarrow> make_requests items (requests @ [request]))"

definition requests_json :: "(string \<times> string) list list \<Rightarrow> json" where
  "requests_json requests =
     JObj [(''requests'', JArr (map (\<lambda>request. JObj (map (\<lambda>(k, v). (k, JStr v)) request)) requests))]"

text \<open>
  \<open>get_user_requests\<close>: a \<open>ClientError\<close> becomes a 500 response, any other exception
  leaves the function.
\<close>

definition get_user_requests :: "(exn + item list) list \<Rightarrow> string \<Rightarrow> exn + response" where
  "get_user_requests segments username =
     (case scan_all username segments [] of
        Inl e \<Rightarrow>
          if is_ClientError e
          then Inr \<lparr>statusCode = 500, body = Dumps (JStr (''An error occurred: '' @ str_exn e))\<rparr>
          else Inl e
      | Inr items \<Rightarrow>
          (case make_requests items [] of
             Inl e \<Rightarrow>
               if is_ClientError e
               then Inr \<lparr>statusCode = 500, body = Dumps (JStr (''An error occurred: '' @ str_exn e))\<rparr>
               else Inl e
           | Inr requests \<Rightarrow> Inr \<lparr>statusCode = 200, body = Dumps (requests_json requests)\<rparr>))"


section \<open>Outcomes of the external jobs\<close>

text \<open>
  What the \<open>k\<close>-th status query about a speech task reports: still pending (a reply with
  a status other than \<open>completed\<close> and \<open>failed\<close>), or failed.
\<close>

definition pending :: "polly_env \<Rightarrow> string \<Rightarrow> nat \<Rightarrow> bool" where
  "pending env task_id k =
     (case get_speech_synthesis_task env task_id k of
        Inl e \<Rightarrow> False
      | Inr t \<Rightarrow> TaskStatus t \<noteq> ''completed'' \<and> TaskStatus t \<noteq> ''failed'')"

definition reports_failed :: "polly_env \<Rightarrow> string \<Rightarrow> nat \<Rightarrow> bool" where
  "reports_failed env task_id k =
     (case get_speech_synthesis_task env task_id k of
        Inl e \<Rightarrow> False
      | Inr t \<Rightarrow> TaskStatus t = ''failed'')"

text \<open>
  What a reply of the build service means to \<open>monitor_build\<close>: the build is in progress;
  the build has failed (a final status other than \<open>SUCCEEDED\<close>, or a \<open>ClientError\<close> of the
  query); the build has succeeded. A build fails (succeeds) after \<open>n\<close> queries when its
  first \<open>n\<close> replies report it in progress and the next one failure (success).
\<close>

definition in_progress_reply :: "exn + string list \<Rightarrow> bool" where
  "in_progress_reply reply =
     (case reply of
        Inl e \<Rightarrow> False
      | Inr builds \<Rightarrow> (case builds of [] \<Rightarrow> False | status # _ \<Rightarrow> status = ''IN_PROGRESS''))"

definition failure_reply :: "exn + string list \<Rightarrow> bool" where
  "failure_reply reply =
     (case reply of
        Inl e \<Rightarrow> is_ClientError e
      | Inr builds \<Rightarrow>
          (case builds of [] \<Rightarrow> False | status # _ \<Rightarrow> status \<noteq> ''IN_PROGRESS'' \<and> status \<noteq> ''SUCCEEDED''))"

definition success_reply :: "exn + string list \<Rightarrow> bool" where
  "success_reply reply =
     (case reply of
        Inl e \<Rightarrow> False
      | Inr builds \<Rightarrow> (case builds of [] \<Rightarrow> False | status # _ \<Rightarrow> status = ''SUCCEEDED''))"

definition build_fails :: "cb_env \<Rightarrow> string \<Rightarrow> nat \<Rightarrow> bool" where
  "build_fails env build_id n \<longleftrightarrow>
     (\<forall>k<n. in_progress_reply (batch_get_builds env build_id k)) \<and>
     failure_reply (batch_get_builds env build_id n)"

definition build_succeeds :: "cb_env \<Rightarrow> string \<Rightarrow> nat \<Rightarrow> bool" where
  "build_succeeds env build_id n \<longleftrightarrow>
     (\<forall>k<n. in_progress_reply (batch_get_builds env build_id k)) \<and>
     success_reply (batch_get_builds env build_id n)"

text \<open>The state at the start of the handler, and the number of 30-second waits taken.\<close>

definition cb_start :: cb_world where
  "cb_start = \<lparr>submissions = 0, polled = (\<lambda>build_id. 0), sleeps = []\<rparr>"

definition backoffs :: "cb_world \<Rightarrow> nat" where
  "backoffs w = length (filter (\<lambda>s. s = 30) (sleeps w))"


section \<open>Concrete services and stores\<close>

text \<open>
  Services that never raise, for running the handlers on concrete inputs: a listing in
  one page, a model that reads back the bytes of the image as its text and finds no text
  in an empty image, and the UTF-8 encoding of ASCII text.
\<close>

definition echo_model :: "string \<Rightarrow> exn + pystr" where
  "echo_model image_base64 =
     (if image_base64 = [] then Inl (Exception ''no text in image'')
      else Inr (map of_char image_base64))"

definition quiet_ic_env :: "s3_object list \<Rightarrow> ic_env" where
  "quiet_ic_env listing =
     \<lparr>paginate = (\<lambda>bucket prefix. Inr [\<lparr>Contents = Some listing\<rparr>]),
      get_object_fault = (\<lambda>bucket key. None),
      invoke_model = echo_model,
      put_object_fault = (\<lambda>bucket key. None),
      update_item_fault = (\<lambda>reference_key status. None),
      utf8_encode = map char_of\<rparr>"

definition store :: "((string \<times> string) \<times> string) list \<Rightarrow> (string \<times> (string \<times> string) list) list \<Rightarrow> world" where
  "store objs items =
     \<lparr>objects = map_of objs, table = map_of (map (\<lambda>(k, attrs). (k, map_of attrs)) items),
      clock = 0, poll_log = []\<rparr>"

definition trigger :: "string \<Rightarrow> string \<Rightarrow> sns_event" where
  "trigger reference_key bucket = Message [''reference_key'' \<mapsto> reference_key, ''bucket'' \<mapsto> bucket]"

text \<open>
  The key under which the rasterize stage stores page \<open>n\<close> of a task:
  \<open>f"images/{reference_key}/page_{i+start_page}.png"\<close>.
\<close>

definition page_key :: "string \<Rightarrow> nat \<Rightarrow> string" where
  "page_key reference_key n = ''images/'' @ reference_key @ ''/page_'' @ str_nat n @ ''.png''"

text \<open>Pages 9 and 10 of task \<open>r1\<close>, a document rasterized from page 9 to page 10.\<close>

definition pages_9_10 :: "s3_object list" where
  "pages_9_10 = [\<lparr>Key = ''images/r1/page_9.png''\<rparr>, \<lparr>Key = ''images/r1/page_10.png''\<rparr>]"

definition store_9_10 :: world where
  "store_9_10 =
     store [((''b'', ''images/r1/page_9.png''), ''nine''), ((''b'', ''images/r1/page_10.png''), ''ten'')]
           [(''r1'', [(''reference_key'', ''r1''), (''TaskStatus'', ''pdf-to-images conversion is completed'')])]"

text \<open>Two pages, numbered 2 and 10, of task \<open>r1\<close>, listed in page order.\<close>

definition pages_2_10 :: "s3_object list" where
  "pages_2_10 = [\<lparr>Key = ''images/r1/page_2.png''\<rparr>, \<lparr>Key = ''images/r1/page_10.png''\<rparr>]"

definition store_2_10 :: world where
  "store_2_10 =
     store [((''b'', ''images/r1/page_2.png''), ''two''), ((''b'', ''images/r1/page_10.png''), ''ten'')]
           [(''r1'', [(''reference_key'', ''r1''), (''TaskStatus'', ''pdf-to-images conversion is completed'')])]"

text \<open>Five pages of task \<open>r1\<close>, every one an empty image, so that every extraction fails.\<close>

definition pages_1_5 :: "s3_object list" where
  "pages_1_5 =
     [\<lparr>Key = ''images/r1/page_1.png''\<rparr>, \<lparr>Key = ''images/r1/page_2.png''\<rparr>,
      \<lparr>Key = ''images/r1/page_3.png''\<rparr>, \<lparr>Key = ''images/r1/page_4.png''\<rparr>,
      \<lparr>Key = ''images/r1/page_5.png''\<rparr>]"

definition store_blank :: world where
  "store_blank =
     store [((''b'', ''images/r1/page_1.png''), []), ((''b'', ''images/r1/page_2.png''), []),
            ((''b'', ''images/r1/page_3.png''), []), ((''b'', ''images/r1/page_4.png''), []),
            ((''b'', ''images/r1/page_5.png''), [])]
           [(''r1'', [(''reference_key'', ''r1''), (''TaskStatus'', ''pdf-to-images conversion is completed'')])]"

text \<open>
  One page of task \<open>r1\<close>, whose record still carries the status written at upload,
  \<open>Upload-Completed\<close>.
\<close>

definition store_uploaded :: world where
  "store_uploaded =
     store [((''b'', ''images/r1/page_1.png''), ''one'')]
           [(''r1'', [(''reference_key'', ''r1''), (''TaskStatus'', ''Upload-Completed'')])]"

text \<open>The record of task \<open>r1\<close> after the rasterize stage, and no object at all.\<close>

definition store_empty :: world where
  "store_empty =
     store [] [(''r1'', [(''reference_key'', ''r1''), (''TaskStatus'', ''pdf-to-images conversion is completed'')])]"

text \<open>The services of \<open>quiet_ic_env\<close>, except that storing an object is refused.\<close>

definition readonly_ic_env :: "s3_object list \<Rightarrow> ic_env" where
  "readonly_ic_env listing =
     (quiet_ic_env listing)\<lparr>put_object_fault := (\<lambda>bucket key. Some (ClientError ''AccessDenied''))\<rparr>"


text \<open>
  Speech services that never raise: every task is named \<open>t1\<close>, a status query takes 200
  milliseconds, sleeps are exact, and the bytes of an object decode to their code
  points. \<open>in_progress\<close> is a task that is never done.
\<close>

definition quiet_polly_env :: "(string \<Rightarrow> nat \<Rightarrow> exn + synthesis_task) \<Rightarrow> polly_env" where
  "quiet_polly_env service =
     \<lparr>get_item_fault = (\<lambda>reference_key. None),
      s3_get_fault = (\<lambda>bucket key. None),
      utf8_decode = (\<lambda>content. Inr (map of_char content)),
      start_speech_synthesis_task = (\<lambda>bucket prefix chunk voice_id language_code. Inr ''t1''),
      get_speech_synthesis_task = service,
      poll_latency = (\<lambda>k. 200),
      oversleep = (\<lambda>k. 0),
      s3_copy_fault = (\<lambda>bucket source_key destination_key. None),
      s3_delete_fault = (\<lambda>bucket key. None),
      s3_put_fault = (\<lambda>bucket key. None),
      status_write_fault = (\<lambda>reference_key status. None)\<rparr>"

definition in_progress :: "string \<Rightarrow> nat \<Rightarrow> exn + synthesis_task" where
  "in_progress task_id k = Inr \<lparr>TaskStatus = ''inProgress'', OutputUri = []\<rparr>"

definition store_audio :: world where
  "store_audio =
     store [((''b'', ''download/r1/chunk_0_.t1.mp3''), ''mp3'')]
           [(''r1'', [(''reference_key'', ''r1''), (''Language'', ''English''),
                      (''TaskStatus'', ''images-to-text conversion is completed'')])]"

text \<open>
  Rasterize services that never raise, for the task table \<open>tasks\<close> and the topic
  \<open>pages\<close> in region \<open>eu-west-1\<close>: a path \<open>s3://b/k\<close> names bucket \<open>b\<close> and key \<open>k\<close>, the
  page numbers are \<open>1\<close> and \<open>2\<close>, and a document converts to its bytes as only page.
  \<open>rasterize_context\<close> is the context of the function and \<open>task_r1\<close> the new image of
  task \<open>r1\<close>.
\<close>

definition quiet_rz_env :: rz_env where
  "quiet_rz_env =
     \<lparr>os_environ = [''AWS_REGION'' \<mapsto> ''eu-west-1'', ''SNS_TOPIC_NAME'' \<mapsto> ''pages'',
                 ''DYNAMODB_TABLE'' \<mapsto> ''tasks''],
      urlparse = (\<lambda>s3_path. if s3_path = ''s3://b/upload/r1/doc.pdf'' then Inr (''b'', ''/upload/r1/doc.pdf'')
                             else Inl (ValueError ''not an s3 path'')),
      to_int = (\<lambda>s. if s = ''1'' then Inr 1 else if s = ''2'' then Inr 2
                     else Inl (ValueError (''invalid literal for int() with base 10: '' @ py_repr s))),
      download_fault = (\<lambda>bucket key. None),
      convert_from_path = (\<lambda>pdf first_page last_page. Inr [Inr pdf]),
      image_put_fault = (\<lambda>bucket key. None),
      table_fault = (\<lambda>reference_key status. None),
      publish_fault = (\<lambda>topic_arn message. None)\<rparr>"

definition rasterize_context :: lambda_context where
  "rasterize_context = \<lparr>invoked_function_arn = ''arn:aws:lambda:eu-west-1:123456789012:function:rasterize''\<rparr>"

definition task_r1 :: new_image where
  "task_r1 =
     [''reference_key'' \<mapsto> [''S'' \<mapsto> ''r1''], ''S3Path'' \<mapsto> [''S'' \<mapsto> ''s3://b/upload/r1/doc.pdf''],
      ''StartPage'' \<mapsto> [''S'' \<mapsto> ''1''], ''EndPage'' \<mapsto> [''S'' \<mapsto> ''2'']]"

text \<open>The record of task \<open>r1\<close> as the upload leaves it, with its document.\<close>

definition store_pdf :: world where
  "store_pdf =
     store [((''b'', ''upload/r1/doc.pdf''), ''pdf'')]
           [(''r1'', [(''reference_key'', ''r1''), (''TaskStatus'', ''Upload-Completed'')])]"


text \<open>A build service whose builds are named \<open>build-0\<close>, \<open>build-1\<close>, ... and all fail at once.\<close>

definition build_name :: "nat \<Rightarrow> string" where
  "build_name i = ''build-'' @ str_nat i"

definition failing_builds :: cb_env where
  "failing_builds =
     \<lparr>start_build = (\<lambda>project_name i. Inr (build_name i)),
      batch_get_builds = (\<lambda>build_id k. Inr [''FAILED''])\<rparr>"

text \<open>The same service, except that build \<open>build-1\<close> succeeds at its third query.\<close>

definition second_build_succeeds :: cb_env where
  "second_build_succeeds =
     \<lparr>start_build = (\<lambda>project_name i. Inr (build_name i)),
      batch_get_builds =
        (\<lambda>build_id k. if build_id = ''build-1''
                        then (if k < 2 then Inr [''IN_PROGRESS''] else Inr [''SUCCEEDED''])
                        else Inr [''FAILED''])\<rparr>"

text \<open>
  A task table in two segments: the requests of user \<open>u\<close> (one ready, one failed in the
  speech stage, one failed in the extract stage, one just uploaded) and one of user \<open>v\<close>.
\<close>

definition user_table :: "(exn + item list) list" where
  "user_table =
     [Inr [map_of [(''reference_key'', ''r1''), (''Username'', ''u''), (''FileName'', ''a.pdf''), (''TaskStatus'', ''Voice-is-Ready'')],
           map_of [(''reference_key'', ''r2''), (''Username'', ''v''), (''TaskStatus'', ''Voice-is-Ready'')]],
      Inr [map_of [(''reference_key'', ''r3''), (''Username'', ''u''), (''TaskStatus'', ''failed'')],
           map_of [(''reference_key'', ''r4''), (''Username'', ''u''), (''FileName'', ''d.pdf''), (''TaskStatus'', ''images-to-text conversion is failed'')],
           map_of [(''reference_key'', ''r5''), (''Username'', ''u''), (''FileName'', ''e.pdf''), (''TaskStatus'', ''Upload-Completed'')]]]"


section \<open>Properties of \<open>split_text\<close>\<close>

lemma split_run_nonspace:
  "\<forall>c\<in>set w. \<not> isspace c \<Longrightarrow> split_run cur (w @ rest) = split_run (cur @ w) rest"
  by (induction w arbitrary: cur) auto

lemma split_run_words:
  "(\<forall>c\<in>set cur. \<not> isspace c) \<Longrightarrow> \<forall>w\<in>set (split_run cur s). word_ok w"
proof (induction s arbitrary: cur)
  case Nil
  then show ?case by (simp add: word_ok_def)
next
  case (Cons a s)
  have h1: "\<forall>w\<in>set (split_run [] s). word_ok w"
    using Cons.IH [of "[]"] by simp
  have h2: "\<not> isspace a \<Longrightarrow> \<forall>w\<in>set (split_run (cur @ [a]) s). word_ok w"
    using Cons.IH [of "cur @ [a]"] Cons.prems by simp
  have h3: "cur \<noteq> [] \<Longrightarrow> word_ok cur"
    using Cons.prems by (simp add: word_ok_def)
  show ?case using h1 h2 h3 by simp
qed

lemma py_split_words: "w \<in> set (py_split s) \<Longrightarrow> word_ok w"
  unfolding py_split_def using split_run_words [of "[]" s] by simp

lemma isspace_32: "isspace 32"
  by (simp add: isspace_def)

lemma split_run_word_sp:
  assumes "word_ok w"
  shows "split_run [] (w @ SP @ rest) = w # split_run [] rest"
proof -
  have "split_run [] (w @ SP @ rest) = split_run w (SP @ rest)"
    using assms split_run_nonspace [of w "[]" "SP @ rest"] by (simp add: word_ok_def)
  also have "\<dots> = w # split_run [] rest"
    using assms by (simp add: SP_def isspace_32 word_ok_def)
  finally show ?thesis .
qed

lemma split_run_word:
  assumes "word_ok w"
  shows "split_run [] w = [w]"
  using assms split_run_nonspace [of w "[]" "[]"] by (simp add: word_ok_def)

lemma py_split_join:
  "\<forall>w\<in>set ws. word_ok w \<Longrightarrow> py_split (py_join SP ws) = ws"
proof (induction SP ws rule: py_join.induct)
  case 1
  then show ?case by (simp add: py_split_def)
next
  case (2 x)
  then show ?case by (simp add: py_split_def split_run_word)
next
  case (3 x y ys)
  then show ?case by (simp add: py_split_def split_run_word_sp)
qed

lemma py_join_append:
  "xs \<noteq> [] \<Longrightarrow> ys \<noteq> [] \<Longrightarrow> py_join sep (xs @ ys) = py_join sep xs @ sep @ py_join sep ys"
proof (induction sep xs rule: py_join.induct)
  case (2 sep x)
  then show ?case by (cases ys) auto
qed auto

lemma py_join_groups:
  "\<forall>g\<in>set gs. g \<noteq> [] \<Longrightarrow> py_join sep (map (py_join sep) gs) = py_join sep (concat gs)"
proof (induction gs)
  case Nil
  then show ?case by simp
next
  case (Cons g gs)
  show ?case
  proof (cases gs)
    case Nil
    then show ?thesis by simp
  next
    case (Cons h hs)
    then have ne: "concat gs \<noteq> []" using Cons.prems by auto
    have "py_join sep (map (py_join sep) (g # gs)) = py_join sep g @ sep @ py_join sep (map (py_join sep) gs)"
      using Cons by simp
    also have "\<dots> = py_join sep g @ sep @ py_join sep (concat gs)"
      using Cons.IH Cons.prems by simp
    also have "\<dots> = py_join sep (g @ concat gs)"
      using py_join_append [of g "concat gs" sep] ne Cons.prems by simp
    finally show ?thesis by simp
  qed
qed

lemma length_py_join_single: "length (py_join sep [w]) = length w"
  by simp

lemma split_loop_groups:
  assumes "\<forall>w\<in>set ws. length w \<le> limit"
    and "cur = [] \<or> length (py_join SP cur) \<le> limit"
    and "split_loop limit ws chunks cur = (chunks', cur')"
  shows "\<exists>gs. chunks' = chunks @ map (py_join SP) gs \<and> concat gs @ cur' = cur @ ws \<and>
              (\<forall>g\<in>set gs. g \<noteq> [] \<and> length (py_join SP g) \<le> limit) \<and>
              (ws \<noteq> [] \<or> cur \<noteq> [] \<longrightarrow> cur' \<noteq> []) \<and>
              (cur' = [] \<or> length (py_join SP cur') \<le> limit)"
  using assms
proof (induction ws arbitrary: chunks cur)
  case Nil
  then show ?case by auto
next
  case (Cons w ws)
  show ?case
  proof (cases "length (py_join SP (cur @ [w])) \<le> limit")
    case True
    with Cons.prems have "split_loop limit ws chunks (cur @ [w]) = (chunks', cur')" by simp
    with Cons.IH [of "cur @ [w]" chunks] Cons.prems(1) True
    obtain gs where "chunks' = chunks @ map (py_join SP) gs" "concat gs @ cur' = (cur @ [w]) @ ws"
      "\<forall>g\<in>set gs. g \<noteq> [] \<and> length (py_join SP g) \<le> limit" "cur' \<noteq> []"
      "cur' = [] \<or> length (py_join SP cur') \<le> limit"
      by auto
    then show ?thesis by auto
  next
    case False
    have curne: "cur \<noteq> []"
    proof
      assume "cur = []"
      with False Cons.prems(1) show False by simp
    qed
    from False Cons.prems have "split_loop limit ws (chunks @ [py_join SP cur]) [w] = (chunks', cur')" by simp
    with Cons.IH [of "[w]" "chunks @ [py_join SP cur]"] Cons.prems(1)
    obtain gs where g: "chunks' = (chunks @ [py_join SP cur]) @ map (py_join SP) gs" "concat gs @ cur' = [w] @ ws"
      "\<forall>g\<in>set gs. g \<noteq> [] \<and> length (py_join SP g) \<le> limit" "cur' \<noteq> []"
      "cur' = [] \<or> length (py_join SP cur') \<le> limit"
      by auto
    have "chunks' = chunks @ map (py_join SP) (cur # gs)" using g by simp
    moreover have "concat (cur # gs) @ cur' = cur @ w # ws" using g by simp
    moreover have "\<forall>g\<in>set (cur # gs). g \<noteq> [] \<and> length (py_join SP g) \<le> limit"
      using g curne Cons.prems(2) by auto
    ultimately show ?thesis using g(4,5) by blast
  qed
qed

lemma split_text_lim_groups:
  assumes "\<forall>w\<in>set (py_split s). length w \<le> limit"
  shows "\<exists>gs. split_text_lim limit s = map (py_join SP) gs \<and> concat gs = py_split s \<and>
              (\<forall>g\<in>set gs. g \<noteq> [] \<and> length (py_join SP g) \<le> limit)"
proof -
  obtain chunks' cur' where sl: "split_loop limit (py_split s) [] [] = (chunks', cur')"
    by (cases "split_loop limit (py_split s) [] []") auto
  from split_loop_groups [OF assms _ sl]
  obtain gs where g: "chunks' = map (py_join SP) gs" "concat gs @ cur' = py_split s"
    "\<forall>g\<in>set gs. g \<noteq> [] \<and> length (py_join SP g) \<le> limit"
    "cur' = [] \<or> length (py_join SP cur') \<le> limit"
    by auto
  show ?thesis
  proof (cases "cur' = []")
    case True
    then show ?thesis using g sl by (auto simp: split_text_lim_def)
  next
    case False
    then have "split_text_lim limit s = map (py_join SP) (gs @ [cur'])"
      using g sl by (simp add: split_text_lim_def)
    moreover have "concat (gs @ [cur']) = py_split s" using g by simp
    moreover have "\<forall>g\<in>set (gs @ [cur']). g \<noteq> [] \<and> length (py_join SP g) \<le> limit"
      using g False by auto
    ultimately show ?thesis by blast
  qed
qed

lemma py_join_nonempty:
  "g \<noteq> [] \<Longrightarrow> \<forall>w\<in>set g. w \<noteq> [] \<Longrightarrow> py_join sep g \<noteq> []"
  by (induction sep g rule: py_join.induct) auto


lemma split_loop_chunks:
  assumes "split_loop limit ws chunks cur = (chunks', cur')"
    and "cur = [] \<or> length (py_join SP cur) \<le> limit \<or> (\<exists>w. cur = [w])"
  shows "\<exists>gs. chunks' = chunks @ map (py_join SP) gs \<and> concat gs @ cur' = cur @ ws \<and>
              (\<forall>g\<in>set gs. length (py_join SP g) \<le> limit \<or> (\<exists>w. g = [w])) \<and>
              (cur' = [] \<or> length (py_join SP cur') \<le> limit \<or> (\<exists>w. cur' = [w])) \<and>
              (ws \<noteq> [] \<or> cur \<noteq> [] \<longrightarrow> cur' \<noteq> []) \<and>
              (\<forall>g\<in>set (tl gs). g \<noteq> []) \<and>
              (cur \<noteq> [] \<longrightarrow> (\<forall>g\<in>set gs. g \<noteq> []))"
  using assms
proof (induction ws arbitrary: chunks cur)
  case Nil
  then show ?case by auto
next
  case (Cons w ws)
  show ?case
  proof (cases "length (py_join SP (cur @ [w])) \<le> limit")
    case True
    with Cons.prems have "split_loop limit ws chunks (cur @ [w]) = (chunks', cur')" by simp
    from Cons.IH [OF this] True
    obtain gs where "chunks' = chunks @ map (py_join SP) gs" "concat gs @ cur' = (cur @ [w]) @ ws"
      "\<forall>g\<in>set gs. length (py_join SP g) \<le> limit \<or> (\<exists>w. g = [w])"
      "cur' = [] \<or> length (py_join SP cur') \<le> limit \<or> (\<exists>w. cur' = [w])"
      "cur' \<noteq> []" "\<forall>g\<in>set gs. g \<noteq> []"
      by auto
    moreover have "\<forall>g\<in>set (tl gs). g \<noteq> []"
      using \<open>\<forall>g\<in>set gs. g \<noteq> []\<close> by (cases gs) auto
    ultimately show ?thesis
      by (intro exI [of _ gs]) auto
  next
    case False
    with Cons.prems have "split_loop limit ws (chunks @ [py_join SP cur]) [w] = (chunks', cur')" by simp
    from Cons.IH [OF this]
    obtain gs where g: "chunks' = (chunks @ [py_join SP cur]) @ map (py_join SP) gs" "concat gs @ cur' = [w] @ ws"
      "\<forall>g\<in>set gs. length (py_join SP g) \<le> limit \<or> (\<exists>w. g = [w])"
      "cur' = [] \<or> length (py_join SP cur') \<le> limit \<or> (\<exists>w. cur' = [w])"
      "cur' \<noteq> []" "\<forall>g\<in>set gs. g \<noteq> []"
      by auto
    have c: "length (py_join SP cur) \<le> limit \<or> (\<exists>w. cur = [w])"
      using Cons.prems(2) by auto
    show ?thesis
      using g c by (intro exI [of _ "cur # gs"]) auto
  qed
qed

lemma split_text_lim_chunks:
  "\<exists>gs. split_text_lim limit s = map (py_join SP) gs \<and> concat gs = py_split s \<and>
        (\<forall>g\<in>set gs. length (py_join SP g) \<le> limit \<or> (\<exists>w. g = [w])) \<and>
        (\<forall>g\<in>set (tl gs). g \<noteq> [])"
proof -
  obtain chunks' cur' where sl: "split_loop limit (py_split s) [] [] = (chunks', cur')"
    by (cases "split_loop limit (py_split s) [] []") auto
  from split_loop_chunks [OF sl]
  obtain gs where g: "chunks' = map (py_join SP) gs" "concat gs @ cur' = py_split s"
    "\<forall>g\<in>set gs. length (py_join SP g) \<le> limit \<or> (\<exists>w. g = [w])"
    "cur' = [] \<or> length (py_join SP cur') \<le> limit \<or> (\<exists>w. cur' = [w])"
    "\<forall>g\<in>set (tl gs). g \<noteq> []"
    by auto
  show ?thesis
  proof (cases "cur' = []")
    case True
    then show ?thesis using g sl by (intro exI [of _ gs]) (simp add: split_text_lim_def)
  next
    case False
    have t: "\<forall>g\<in>set (tl (gs @ [cur'])). g \<noteq> []"
      using g(5) False by (cases gs) auto
    have "split_text_lim limit s = map (py_join SP) (gs @ [cur'])"
      using g sl False by (simp add: split_text_lim_def)
    moreover have "concat (gs @ [cur']) = py_split s" using g by simp
    moreover have "\<forall>g\<in>set (gs @ [cur']). length (py_join SP g) \<le> limit \<or> (\<exists>w. g = [w])"
      using g False by auto
    ultimately show ?thesis using t by blast
  qed
qed

lemma split_text_lim_overlong_word:
  assumes "word_ok w" and "limit < length w"
  shows "split_text_lim limit w = [[], w]"
proof -
  have "py_split w = [w]"
    using assms(1) by (simp add: py_split_def split_run_word)
  then show ?thesis
    using assms by (simp add: split_text_lim_def word_ok_def)
qed

lemma word_ok_replicate: "0 < n \<Longrightarrow> word_ok (replicate n 97)"
  by (simp add: word_ok_def isspace_def)

text \<open>
  C4. \<open>split(text, limit)\<close> is to return non-empty chunks, a word longer than the limit
  being emitted whole as its own chunk. \<open>split_text\<close> emits an empty chunk in front of
  such a word when it is the first word of the text: the \<open>else\<close> branch appends the join
  of the still empty \<open>current_chunk\<close>. For the text made of one word of 190001 letters
  \<open>a\<close> the result is the empty chunk followed by the word, and likewise for \<open>aaaa\<close>
  with limit 3.
\<close>

theorem split_text_leading_empty_chunk:
  "split_text (replicate 190001 97) = [[], replicate 190001 97] \<and>
   split_text_lim 3 [97, 97, 97, 97] = [[], [97, 97, 97, 97]]"
proof
  show "split_text (replicate 190001 97) = [[], replicate 190001 97]"
    unfolding split_text_def
    by (rule split_text_lim_overlong_word) (simp_all add: word_ok_replicate MAX_CHARS_def)
  show "split_text_lim 3 [97, 97, 97, 97] = [[], [97, 97, 97, 97]]"
    by (simp add: split_text_lim_def py_split_def isspace_def SP_def)
qed

text \<open>
  C5. For every text and every limit that is at least the length of the longest word
  of the text: joining the chunks of \<open>split_text\<close> with a space gives the words of the
  text joined by single spaces (the text with its whitespace normalised), so splitting
  the joined chunks gives back the words of the text in their order; every chunk is
  non-empty and within the limit; and the empty text has no chunk. The function is a
  function of its two arguments only.
\<close>

theorem split_text_roundtrip:
  assumes "\<forall>w\<in>set (py_split s). length w \<le> limit"
  shows "py_join SP (split_text_lim limit s) = py_join SP (py_split s) \<and>
         py_split (py_join SP (split_text_lim limit s)) = py_split s \<and>
         (\<forall>chunk\<in>set (split_text_lim limit s). chunk \<noteq> [] \<and> length chunk \<le> limit) \<and>
         split_text_lim limit [] = []"
proof -
  from split_text_lim_groups [OF assms]
  obtain gs where g1: "split_text_lim limit s = map (py_join SP) gs"
    and g2: "concat gs = py_split s"
    and g3: "\<forall>g\<in>set gs. g \<noteq> [] \<and> length (py_join SP g) \<le> limit"
    by blast
  have "py_join SP (map (py_join SP) gs) = py_join SP (concat gs)"
    by (rule py_join_groups) (simp add: g3)
  then have j: "py_join SP (split_text_lim limit s) = py_join SP (py_split s)"
    by (simp only: g1 g2)
  have "\<forall>w\<in>set (py_split s). word_ok w"
    by (simp add: py_split_words)
  then have "py_split (py_join SP (py_split s)) = py_split s"
    by (rule py_split_join)
  then have r: "py_split (py_join SP (split_text_lim limit s)) = py_split s"
    by (simp only: j)
  have ne: "\<forall>chunk\<in>set (split_text_lim limit s). chunk \<noteq> [] \<and> length chunk \<le> limit"
  proof
    fix chunk assume "chunk \<in> set (split_text_lim limit s)"
    then obtain grp where grp: "grp \<in> set gs" "chunk = py_join SP grp"
      unfolding g1 by auto
    have "\<forall>w\<in>set grp. w \<noteq> []"
    proof
      fix w assume "w \<in> set grp"
      with grp(1) have "w \<in> set (concat gs)" by auto
      then have "word_ok w" unfolding g2 by (rule py_split_words)
      then show "w \<noteq> []" by (simp add: word_ok_def)
    qed
    moreover have "grp \<noteq> []" "length (py_join SP grp) \<le> limit"
      using g3 grp(1) by auto
    ultimately show "chunk \<noteq> [] \<and> length chunk \<le> limit"
      using py_join_nonempty [of grp SP] grp(2) by simp
  qed
  have e: "split_text_lim limit [] = []"
    by (simp add: split_text_lim_def py_split_def)
  from j r ne e show ?thesis by (intro conjI)
qed

theorem split_text_roundtrip_witness:
  "py_split [97,97,32,32,98,10,99,99,99,99,32,100] = [[97,97],[98],[99,99,99,99],[100]] \<and>
   py_join SP (split_text_lim 5 [97,97,32,32,98,10,99,99,99,99,32,100]) = [97,97,32,98,32,99,99,99,99,32,100] \<and>
   split_text_lim 5 [97,97,32,32,98,10,99,99,99,99,32,100] = [[97,97,32,98],[99,99,99,99],[100]]"
  using split_text_roundtrip [of "[97,97,32,32,98,10,99,99,99,99,32,100]" 5]
  by (simp add: split_text_lim_def py_split_def isspace_def SP_def)


section \<open>Properties of the extract-text stage\<close>

lemmas ic_defs = ic_lambda_handler_def ic_process_def collect_contents_def update_dynamodb_def
  ic_put_object_def image_text_def ic_get_object_def process_image_claude_def
  quiet_ic_env_def readonly_ic_env_def echo_model_def store_def trigger_def status_of_def
  update_item_def char_of_def bit_0

lemma process_images_concat:
  "process_images env w bucket objs acc =
     acc @ concat (map (\<lambda>obj. case image_text env w bucket (Key obj) of Inl e \<Rightarrow> [] | Inr t \<Rightarrow> t @ [10, 10]) objs)"
  by (induction objs arbitrary: acc) (auto split: sum.splits)

lemma image_text_table: "image_text env (w\<lparr>table := t\<rparr>) bucket key = image_text env w bucket key"
  by (simp add: image_text_def ic_get_object_def split: option.splits)

lemma process_images_table: "process_images env (w\<lparr>table := t\<rparr>) bucket objs acc = process_images env w bucket objs acc"
  by (induction objs arbitrary: acc) (auto simp: image_text_table split: sum.splits)


lemma extract_text_in_key_order:
  assumes "message ''reference_key'' = Some r"
    and "message ''bucket'' = Some b"
    and "paginate env b (''images/'' @ r @ ''/'') = Inr pages"
    and "collect_contents pages \<noteq> []"
    and "put_object_fault env b (''download/'' @ r @ ''/formatted_output.txt'') = None"
    and "update_item_fault env r ''images-to-text conversion is completed'' = None"
  shows "objects (snd (ic_lambda_handler env (Message message) w)) (b, ''download/'' @ r @ ''/formatted_output.txt'') =
           Some (utf8_encode env
             (concat (map (\<lambda>obj. case image_text env w b (Key obj) of Inl e \<Rightarrow> [] | Inr t \<Rightarrow> t @ [10, 10])
                          (sort_key Key (collect_contents pages)))))"
  using assms
  by (simp add: ic_lambda_handler_def ic_process_def ic_put_object_def update_dynamodb_def Let_def
        process_images_concat)

text \<open>
  C1 (as the code has it). Whenever the listing of the task's images holds at least one
  object, and storing the text and writing the status raise nothing, the stage stores
  the text and writes its success status \<open>images-to-text conversion is completed\<close>,
  whatever the outcome of the extractions; when every extraction fails, the text stored
  is the empty text.
\<close>

theorem extract_success_whenever_listed:
  assumes "message ''reference_key'' = Some r"
    and "message ''bucket'' = Some b"
    and "paginate env b (''images/'' @ r @ ''/'') = Inr pages"
    and "collect_contents pages \<noteq> []"
    and "put_object_fault env b (''download/'' @ r @ ''/formatted_output.txt'') = None"
    and "update_item_fault env r ''images-to-text conversion is completed'' = None"
  shows "fst (ic_lambda_handler env (Message message) w) =
           Inr \<lparr>statusCode = 200, body = Dumps (JStr ''Images processed and text generated successfully!'')\<rparr> \<and>
         status_of (snd (ic_lambda_handler env (Message message) w)) r =
           Some ''images-to-text conversion is completed'' \<and>
         ((\<forall>obj\<in>set (collect_contents pages). \<exists>e. image_text env w b (Key obj) = Inl e) \<longrightarrow>
            objects (snd (ic_lambda_handler env (Message message) w)) (b, ''download/'' @ r @ ''/formatted_output.txt'') =
              Some (utf8_encode env []))"
proof -
  let ?out = "''download/'' @ r @ ''/formatted_output.txt''"
  let ?txt = "process_images env w b (sort_key Key (collect_contents pages)) []"
  have h: "ic_lambda_handler env (Message message) w =
        (Inr \<lparr>statusCode = 200, body = Dumps (JStr ''Images processed and text generated successfully!'')\<rparr>,
         w\<lparr>objects := (objects w)((b, ?out) \<mapsto> utf8_encode env ?txt),
           table := update_item (table w) r ''images-to-text conversion is completed''\<rparr>)"
    using assms
    by (simp add: ic_lambda_handler_def ic_process_def ic_put_object_def update_dynamodb_def Let_def)
  have e: "(\<forall>obj\<in>set (collect_contents pages). \<exists>e. image_text env w b (Key obj) = Inl e) \<Longrightarrow> ?txt = []"
    by (auto simp: process_images_concat)
  show ?thesis
    using e by (auto simp: h status_of_def update_item_def split: option.splits)
qed




theorem extract_success_whenever_listed_witness:
  "trigger ''r1'' ''b'' = Message [''reference_key'' \<mapsto> ''r1'', ''bucket'' \<mapsto> ''b''] \<and>
   collect_contents [\<lparr>Contents = Some pages_2_10\<rparr>] \<noteq> [] \<and>
   image_text (quiet_ic_env pages_2_10) store_empty ''b'' ''images/r1/page_2.png'' = Inl (ClientError ''NoSuchKey'') \<and>
   image_text (quiet_ic_env pages_2_10) store_empty ''b'' ''images/r1/page_10.png'' = Inl (ClientError ''NoSuchKey'') \<and>
   fst (ic_lambda_handler (quiet_ic_env pages_2_10) (trigger ''r1'' ''b'') store_empty) =
     Inr \<lparr>statusCode = 200, body = Dumps (JStr ''Images processed and text generated successfully!'')\<rparr> \<and>
   status_of (snd (ic_lambda_handler (quiet_ic_env pages_2_10) (trigger ''r1'' ''b'') store_empty)) ''r1'' =
     Some ''images-to-text conversion is completed'' \<and>
   objects (snd (ic_lambda_handler (quiet_ic_env pages_2_10) (trigger ''r1'' ''b'') store_empty))
     (''b'', ''download/r1/formatted_output.txt'') = Some []"
  using extract_success_whenever_listed
    [of "[''reference_key'' \<mapsto> ''r1'', ''bucket'' \<mapsto> ''b'']" "''r1''" "''b''"
        "quiet_ic_env pages_2_10" "[\<lparr>Contents = Some pages_2_10\<rparr>]" store_empty]
  by (simp add: trigger_def collect_contents_def pages_2_10_def quiet_ic_env_def store_empty_def
        store_def image_text_def ic_get_object_def)

text \<open>
  C1 as stated fails: five page images are listed and the extraction of every one of
  them fails, yet the status written is the success status, not the failure status.
\<close>

theorem extract_all_fail_counterexample:
  "image_text (quiet_ic_env pages_1_5) store_blank ''b'' ''images/r1/page_1.png'' = Inl (Exception ''no text in image'') \<and>
   image_text (quiet_ic_env pages_1_5) store_blank ''b'' ''images/r1/page_2.png'' = Inl (Exception ''no text in image'') \<and>
   image_text (quiet_ic_env pages_1_5) store_blank ''b'' ''images/r1/page_3.png'' = Inl (Exception ''no text in image'') \<and>
   image_text (quiet_ic_env pages_1_5) store_blank ''b'' ''images/r1/page_4.png'' = Inl (Exception ''no text in image'') \<and>
   image_text (quiet_ic_env pages_1_5) store_blank ''b'' ''images/r1/page_5.png'' = Inl (Exception ''no text in image'') \<and>
   status_of (snd (ic_lambda_handler (quiet_ic_env pages_1_5) (trigger ''r1'' ''b'') store_blank)) ''r1'' =
     Some ''images-to-text conversion is completed'' \<and>
   status_of (snd (ic_lambda_handler (quiet_ic_env pages_1_5) (trigger ''r1'' ''b'') store_blank)) ''r1'' \<noteq>
     Some ''images-to-text conversion is failed''"
  by (simp add: ic_defs pages_1_5_def store_blank_def)

text \<open>
  C2. The text artifact is to hold the page texts in ascending page number, page 2
  before page 10. The stage sorts the listing by object key, a string comparison, and
  the keys written by the rasterize stage carry the page number unpadded. For a task of
  pages 9 and 10, listed in page order, the artifact holds the text of page 10 before
  the text of page 9; for pages 2 and 10, the text of page 10 before the text of
  page 2. Each page text is followed by the separator, the last one too.
\<close>

theorem extract_page_10_first:
  "pages_9_10 = [\<lparr>Key = page_key ''r1'' 9\<rparr>, \<lparr>Key = page_key ''r1'' 10\<rparr>] \<and>
   objects store_9_10 (''b'', page_key ''r1'' 9) = Some ''nine'' \<and>
   objects store_9_10 (''b'', page_key ''r1'' 10) = Some ''ten'' \<and>
   objects (snd (ic_lambda_handler (quiet_ic_env pages_9_10) (trigger ''r1'' ''b'') store_9_10))
     (''b'', ''download/r1/formatted_output.txt'') =
     Some (''ten'' @ [CHR 0x0A, CHR 0x0A] @ ''nine'' @ [CHR 0x0A, CHR 0x0A]) \<and>
   pages_2_10 = [\<lparr>Key = page_key ''r1'' 2\<rparr>, \<lparr>Key = page_key ''r1'' 10\<rparr>] \<and>
   objects store_2_10 (''b'', page_key ''r1'' 2) = Some ''two'' \<and>
   objects store_2_10 (''b'', page_key ''r1'' 10) = Some ''ten'' \<and>
   objects (snd (ic_lambda_handler (quiet_ic_env pages_2_10) (trigger ''r1'' ''b'') store_2_10))
     (''b'', ''download/r1/formatted_output.txt'') =
     Some (''ten'' @ [CHR 0x0A, CHR 0x0A] @ ''two'' @ [CHR 0x0A, CHR 0x0A])"
proof -
  have k: "page_key ''r1'' 2 = ''images/r1/page_2.png''" "page_key ''r1'' 9 = ''images/r1/page_9.png''"
    "page_key ''r1'' 10 = ''images/r1/page_10.png''"
    by (simp_all add: page_key_def str_nat.simps char_of_def bit_0)
  show ?thesis
    unfolding k by (simp add: ic_defs pages_2_10_def store_2_10_def pages_9_10_def store_9_10_def)
qed

lemma ic_process_shape:
  "(\<exists>e ob. \<forall>t. ic_process env m r (w\<lparr>table := t\<rparr>) = Inl (e, w\<lparr>objects := ob, table := t\<rparr>)) \<or>
   (\<exists>resp ob st. \<forall>t. ic_process env m r (w\<lparr>table := t\<rparr>) =
        Inr (resp, w\<lparr>objects := ob, table := update_item t r st\<rparr>))"
proof (cases "m ''bucket''")
  case None
  then have "\<forall>t. ic_process env m r (w\<lparr>table := t\<rparr>) =
      Inl (KeyError ''bucket'', w\<lparr>objects := objects w, table := t\<rparr>)"
    by (simp add: ic_process_def)
  then show ?thesis by blast
next
  case (Some b)
  show ?thesis
  proof (cases "paginate env b (''images/'' @ r @ ''/'')")
    case (Inl e)
    with Some have "\<forall>t. ic_process env m r (w\<lparr>table := t\<rparr>) =
        Inl (e, w\<lparr>objects := objects w, table := t\<rparr>)"
      by (simp add: ic_process_def)
    then show ?thesis by blast
  next
    case (Inr pages)
    show ?thesis
    proof (cases "collect_contents pages = []")
      case True
      show ?thesis
      proof (cases "update_item_fault env r ''pdf-to-images is failed''")
        case None
        with Some Inr True have "\<forall>t. ic_process env m r (w\<lparr>table := t\<rparr>) =
            Inr (\<lparr>statusCode = 200, body = Dumps (JStr ''No images found to process'')\<rparr>,
                 w\<lparr>objects := objects w, table := update_item t r ''pdf-to-images is failed''\<rparr>)"
          by (simp add: ic_process_def update_dynamodb_def)
        then show ?thesis by blast
      next
        case (Some e)
        with \<open>m ''bucket'' = Some b\<close> Inr True
        have "\<forall>t. ic_process env m r (w\<lparr>table := t\<rparr>) =
            Inl (e, w\<lparr>objects := objects w, table := t\<rparr>)"
          by (simp add: ic_process_def update_dynamodb_def)
        then show ?thesis by blast
      qed
    next
      case False
      let ?out = "''download/'' @ r @ ''/formatted_output.txt''"
      let ?txt = "process_images env w b (sort_key Key (collect_contents pages)) []"
      let ?ob = "(objects w)((b, ?out) \<mapsto> utf8_encode env ?txt)"
      show ?thesis
      proof (cases "put_object_fault env b ?out")
        case (Some e)
        with \<open>m ''bucket'' = Some b\<close> Inr False
        have "\<forall>t. ic_process env m r (w\<lparr>table := t\<rparr>) =
            Inl (e, w\<lparr>objects := objects w, table := t\<rparr>)"
          by (simp add: ic_process_def ic_put_object_def Let_def)
        then show ?thesis by blast
      next
        case None
        show ?thesis
        proof (cases "update_item_fault env r ''images-to-text conversion is completed''")
          case (Some e)
          with \<open>m ''bucket'' = Some b\<close> Inr False None
          have "\<forall>t. ic_process env m r (w\<lparr>table := t\<rparr>) =
              Inl (e, w\<lparr>objects := ?ob, table := t\<rparr>)"
            by (simp add: ic_process_def ic_put_object_def Let_def update_dynamodb_def process_images_table)
          then show ?thesis by blast
        next
          case None2: None
          with \<open>m ''bucket'' = Some b\<close> Inr False None
          have "\<forall>t. ic_process env m r (w\<lparr>table := t\<rparr>) =
              Inr (\<lparr>statusCode = 200, body = Dumps (JStr ''Images processed and text generated successfully!'')\<rparr>,
                   w\<lparr>objects := ?ob, table := update_item t r ''images-to-text conversion is completed''\<rparr>)"
            by (simp add: ic_process_def ic_put_object_def Let_def update_dynamodb_def process_images_table)
          then show ?thesis by blast
        qed
      qed
    qed
  qed
qed


lemma ic_handler_shape:
  "\<exists>res ob wr. \<forall>t. ic_lambda_handler env event (w\<lparr>table := t\<rparr>) =
      (res, w\<lparr>objects := ob, table := (case wr of None \<Rightarrow> t | Some (r, st) \<Rightarrow> update_item t r st)\<rparr>)"
proof (cases event)
  case (Malformed e)
  then have "\<forall>t. ic_lambda_handler env event (w\<lparr>table := t\<rparr>) =
      (Inl unbound_reference_key, w\<lparr>objects := objects w, table := (case None :: (string \<times> string) option of None \<Rightarrow> t | Some (r, st) \<Rightarrow> update_item t r st)\<rparr>)"
    by (simp add: ic_lambda_handler_def)
  then show ?thesis by blast
next
  case (Message m)
  show ?thesis
  proof (cases "m ''reference_key''")
    case None
    with Message have "\<forall>t. ic_lambda_handler env event (w\<lparr>table := t\<rparr>) =
        (Inl unbound_reference_key, w\<lparr>objects := objects w, table := (case None :: (string \<times> string) option of None \<Rightarrow> t | Some (r, st) \<Rightarrow> update_item t r st)\<rparr>)"
      by (simp add: ic_lambda_handler_def)
    then show ?thesis by blast
  next
    case (Some r)
    from ic_process_shape [of env m r w] show ?thesis
    proof
      assume "\<exists>e ob. \<forall>t. ic_process env m r (w\<lparr>table := t\<rparr>) = Inl (e, w\<lparr>objects := ob, table := t\<rparr>)"
      then obtain e ob where p: "\<And>t. ic_process env m r (w\<lparr>table := t\<rparr>) = Inl (e, w\<lparr>objects := ob, table := t\<rparr>)"
        by blast
      show ?thesis
      proof (cases "update_item_fault env r ''images-to-text conversion is failed''")
        case None
        with Message Some p have "\<forall>t. ic_lambda_handler env event (w\<lparr>table := t\<rparr>) =
            (Inl e, w\<lparr>objects := ob, table := (case Some (r, ''images-to-text conversion is failed'') of None \<Rightarrow> t | Some (r, st) \<Rightarrow> update_item t r st)\<rparr>)"
          by (simp add: ic_lambda_handler_def update_dynamodb_def)
        then show ?thesis by blast
      next
        case (Some e2)
        with Message \<open>m ''reference_key'' = Some r\<close> p have "\<forall>t. ic_lambda_handler env event (w\<lparr>table := t\<rparr>) =
            (Inl e2, w\<lparr>objects := ob, table := (case None :: (string \<times> string) option of None \<Rightarrow> t | Some (r, st) \<Rightarrow> update_item t r st)\<rparr>)"
          by (simp add: ic_lambda_handler_def update_dynamodb_def)
        then show ?thesis by blast
      qed
    next
      assume "\<exists>resp ob st. \<forall>t. ic_process env m r (w\<lparr>table := t\<rparr>) =
        Inr (resp, w\<lparr>objects := ob, table := update_item t r st\<rparr>)"
      then obtain resp ob st where p: "\<And>t. ic_process env m r (w\<lparr>table := t\<rparr>) =
        Inr (resp, w\<lparr>objects := ob, table := update_item t r st\<rparr>)"
        by blast
      with Message Some have "\<forall>t. ic_lambda_handler env event (w\<lparr>table := t\<rparr>) =
            (Inr resp, w\<lparr>objects := ob, table := (case Some (r, st) of None \<Rightarrow> t | Some (r, st) \<Rightarrow> update_item t r st)\<rparr>)"
        by (simp add: ic_lambda_handler_def)
      then show ?thesis by blast
    qed
  qed
qed

lemma status_of_update_item:
  "status_of (w\<lparr>objects := ob, table := update_item t r st\<rparr>) k =
     (if k = r then Some st else status_of (w\<lparr>table := t\<rparr>) k)"
  by (simp add: status_of_def update_item_def split: option.splits)


text \<open>
  C3 (as the code has it). The stage never reads the task's status: whatever the task
  table holds when the stage is invoked, the response or exception of the handler and the
  objects it leaves are the same, and for every task the status it leaves is either the
  same in both runs or, in both runs, the status the task had before.
\<close>

theorem extract_ignores_status:
  "fst (ic_lambda_handler env event (w\<lparr>table := t\<rparr>)) = fst (ic_lambda_handler env event w) \<and>
   objects (snd (ic_lambda_handler env event (w\<lparr>table := t\<rparr>))) = objects (snd (ic_lambda_handler env event w)) \<and>
   (\<forall>k. status_of (snd (ic_lambda_handler env event (w\<lparr>table := t\<rparr>))) k =
          status_of (snd (ic_lambda_handler env event w)) k \<or>
        (status_of (snd (ic_lambda_handler env event (w\<lparr>table := t\<rparr>))) k = status_of (w\<lparr>table := t\<rparr>) k \<and>
         status_of (snd (ic_lambda_handler env event w)) k = status_of w k))"
proof -
  from ic_handler_shape [of env event w]
  obtain res ob wr where h: "\<And>t. ic_lambda_handler env event (w\<lparr>table := t\<rparr>) =
      (res, w\<lparr>objects := ob, table := (case wr of None \<Rightarrow> t | Some (r, st) \<Rightarrow> update_item t r st)\<rparr>)"
    by blast
  have h0: "ic_lambda_handler env event w =
      (res, w\<lparr>objects := ob, table := (case wr of None \<Rightarrow> table w | Some (r, st) \<Rightarrow> update_item (table w) r st)\<rparr>)"
    using h [of "table w"] by simp
  show ?thesis
  proof (cases wr)
    case None
    then show ?thesis by (simp add: h h0 status_of_def)
  next
    case (Some p)
    obtain r st where "p = (r, st)" by (cases p)
    with Some have wr: "wr = Some (r, st)" by simp
    have "status_of (w\<lparr>objects := ob, table := update_item (table w) r st\<rparr>) k =
        (if k = r then Some st else status_of w k)" for k
      using status_of_update_item [where w = w and ob = ob and t = "table w" and r = r and st = st and k = k] by simp
    then show ?thesis
      by (simp add: h h0 wr status_of_update_item)
  qed
qed


theorem extract_ignores_status_witness:
  "fst (ic_lambda_handler (quiet_ic_env pages_2_10) (trigger ''r1'' ''b'') (store_2_10\<lparr>table := table store_uploaded\<rparr>)) =
     fst (ic_lambda_handler (quiet_ic_env pages_2_10) (trigger ''r1'' ''b'') store_2_10) \<and>
   status_of (store_2_10\<lparr>table := table store_uploaded\<rparr>) ''r1'' = Some ''Upload-Completed'' \<and>
   status_of (snd (ic_lambda_handler (quiet_ic_env pages_2_10) (trigger ''r1'' ''b'') (store_2_10\<lparr>table := table store_uploaded\<rparr>))) ''r1'' =
     Some ''images-to-text conversion is completed''"
  using extract_ignores_status [where env = "quiet_ic_env pages_2_10" and event = "trigger ''r1'' ''b''"
      and w = store_2_10 and t = "table store_uploaded"]
  by (simp add: ic_defs pages_2_10_def store_2_10_def store_uploaded_def)

text \<open>
  C3 as stated fails: the task still has the status written at upload (the rasterize
  stage has written none), and the handler is not refused: it extracts the page, stores
  the text, writes its success status and returns its success response.
\<close>

theorem extract_runs_on_uploaded_counterexample:
  "status_of store_uploaded ''r1'' = Some ''Upload-Completed'' \<and>
   fst (ic_lambda_handler (quiet_ic_env [\<lparr>Key = ''images/r1/page_1.png''\<rparr>]) (trigger ''r1'' ''b'') store_uploaded) =
     Inr \<lparr>statusCode = 200, body = Dumps (JStr ''Images processed and text generated successfully!'')\<rparr> \<and>
   status_of (snd (ic_lambda_handler (quiet_ic_env [\<lparr>Key = ''images/r1/page_1.png''\<rparr>]) (trigger ''r1'' ''b'') store_uploaded)) ''r1'' =
     Some ''images-to-text conversion is completed'' \<and>
   objects (snd (ic_lambda_handler (quiet_ic_env [\<lparr>Key = ''images/r1/page_1.png''\<rparr>]) (trigger ''r1'' ''b'') store_uploaded))
     (''b'', ''download/r1/formatted_output.txt'') = Some (''one'' @ [CHR 0x0A, CHR 0x0A])"
  by (simp add: ic_defs store_uploaded_def)


section \<open>Properties of the speech stage\<close>

lemma wait_loop_pending:
  "end_time \<le> clock w + 5000 * n \<Longrightarrow>
   (\<forall>k. length (poll_log w) \<le> k \<and> k < length (poll_log w) + n \<longrightarrow> pending env task_id k) \<Longrightarrow>
   fst (wait_loop env task_id end_time w) = Inl (Exception (''Speech synthesis task timed out: '' @ task_id)) \<and>
   (clock w \<le> end_time \<longrightarrow> end_time \<le> clock (snd (wait_loop env task_id end_time w))) \<and>
   objects (snd (wait_loop env task_id end_time w)) = objects w \<and>
   table (snd (wait_loop env task_id end_time w)) = table w \<and>
   (\<exists>new. poll_log (snd (wait_loop env task_id end_time w)) = poll_log w @ new \<and> length new \<le> n \<and>
          (\<forall>p\<in>set new. fst p = task_id \<and> snd p < end_time))"
proof (induction n arbitrary: w)
  case 0
  then have "\<not> clock w < end_time" by simp
  then show ?case by (subst (1 2 3 4 5) wait_loop.simps) simp
next
  case (Suc n)
  show ?case
  proof (cases "clock w < end_time")
    case False
    then show ?thesis by (subst (1 2 3 4 5) wait_loop.simps) simp
  next
    case True
    let ?k = "length (poll_log w)"
    let ?w1 = "w\<lparr>clock := clock w + poll_latency env ?k, poll_log := poll_log w @ [(task_id, clock w)]\<rparr>"
    let ?w2 = "?w1\<lparr>clock := clock ?w1 + 5000 + oversleep env ?k\<rparr>"
    from Suc.prems(2) have "pending env task_id ?k" by simp
    then obtain t where t: "get_speech_synthesis_task env task_id ?k = Inr t"
      "TaskStatus t \<noteq> ''completed''" "TaskStatus t \<noteq> ''failed''"
      by (auto simp: pending_def split: sum.splits)
    have step: "wait_loop env task_id end_time w = wait_loop env task_id end_time ?w2"
      using True t by (subst wait_loop.simps) (simp add: Let_def)
    have b: "end_time \<le> clock ?w2 + 5000 * n" using Suc.prems(1) by simp
    have p: "\<forall>k. length (poll_log ?w2) \<le> k \<and> k < length (poll_log ?w2) + n \<longrightarrow> pending env task_id k"
      using Suc.prems(2) by simp
    from Suc.IH [OF b p] obtain new where ih:
      "fst (wait_loop env task_id end_time ?w2) = Inl (Exception (''Speech synthesis task timed out: '' @ task_id))"
      "clock ?w2 \<le> end_time \<longrightarrow> end_time \<le> clock (snd (wait_loop env task_id end_time ?w2))"
      "objects (snd (wait_loop env task_id end_time ?w2)) = objects ?w2"
      "table (snd (wait_loop env task_id end_time ?w2)) = table ?w2"
      "poll_log (snd (wait_loop env task_id end_time ?w2)) = poll_log ?w2 @ new" "length new \<le> n"
      "\<forall>p\<in>set new. fst p = task_id \<and> snd p < end_time"
      by blast
    have c: "end_time \<le> clock (snd (wait_loop env task_id end_time ?w2))"
    proof (cases "clock ?w2 \<le> end_time")
      case True
      with ih(2) show ?thesis by simp
    next
      case False
      have "\<not> clock ?w2 < end_time" using False by simp
      then have "wait_loop env task_id end_time ?w2 =
          (Inl (Exception (''Speech synthesis task timed out: '' @ task_id)), ?w2)"
        by (subst wait_loop.simps) simp
      then show ?thesis using False by simp
    qed
    have l: "poll_log (snd (wait_loop env task_id end_time ?w2)) = poll_log w @ ((task_id, clock w) # new)"
      using ih(5) by simp
    have "length ((task_id, clock w) # new) \<le> Suc n" using ih(6) by simp
    moreover have "\<forall>p\<in>set ((task_id, clock w) # new). fst p = task_id \<and> snd p < end_time"
      using ih(7) True by simp
    ultimately have e: "\<exists>new. poll_log (snd (wait_loop env task_id end_time ?w2)) = poll_log w @ new \<and>
        length new \<le> Suc n \<and> (\<forall>p\<in>set new. fst p = task_id \<and> snd p < end_time)"
      using l by blast
    show ?thesis
      unfolding step using ih(1) c e ih(3) ih(4) by simp
  qed
qed

lemma wait_loop_failed:
  assumes "clock w < end_time" and "reports_failed env task_id (length (poll_log w))"
  shows "fst (wait_loop env task_id end_time w) = Inl (Exception (''Speech synthesis task failed: '' @ task_id))"
  using assms by (subst wait_loop.simps) (auto simp: reports_failed_def Let_def split: sum.splits)


text \<open>
  C8. When every status query that \<open>wait_for_polly_task\<close> can send within its 300
  seconds (at most 60, one per 5-second sleep) finds the task pending, the wait ends
  with the \<open>timed out\<close> exception, at a clock reading at or past the deadline; every
  query it sent was sent at a reading before the deadline, so none follows the deadline.
  A task whose first reply is \<open>failed\<close> ends the wait with the \<open>failed\<close> exception, which
  is a different exception.
\<close>

theorem polly_wait_timed_out:
  "((\<forall>k. length (poll_log w) \<le> k \<and> k < length (poll_log w) + 60 \<longrightarrow> pending env task_id k) \<longrightarrow>
      fst (wait_for_polly_task env task_id w) =
        Inl (Exception (''Speech synthesis task timed out: '' @ task_id)) \<and>
      clock w + 300 * 1000 \<le> clock (snd (wait_for_polly_task env task_id w)) \<and>
      (\<exists>new. poll_log (snd (wait_for_polly_task env task_id w)) = poll_log w @ new \<and> length new \<le> 60 \<and>
             (\<forall>p\<in>set new. fst p = task_id \<and> snd p < clock w + 300 * 1000))) \<and>
   (reports_failed env task_id (length (poll_log w)) \<longrightarrow>
      fst (wait_for_polly_task env task_id w) =
        Inl (Exception (''Speech synthesis task failed: '' @ task_id))) \<and>
   Exception (''Speech synthesis task timed out: '' @ task_id) \<noteq>
     Exception (''Speech synthesis task failed: '' @ task_id)"
proof (intro conjI impI)
  assume h: "\<forall>k. length (poll_log w) \<le> k \<and> k < length (poll_log w) + 60 \<longrightarrow> pending env task_id k"
  have b: "clock w + 300 * 1000 \<le> clock w + 5000 * 60" by simp
  note r = wait_loop_pending [OF b h]
  from r show "fst (wait_for_polly_task env task_id w) =
        Inl (Exception (''Speech synthesis task timed out: '' @ task_id))"
    by (simp add: wait_for_polly_task_def)
  from r show "clock w + 300 * 1000 \<le> clock (snd (wait_for_polly_task env task_id w))"
    by (simp add: wait_for_polly_task_def)
  from r show "\<exists>new. poll_log (snd (wait_for_polly_task env task_id w)) = poll_log w @ new \<and> length new \<le> 60 \<and>
             (\<forall>p\<in>set new. fst p = task_id \<and> snd p < clock w + 300 * 1000)"
    by (simp add: wait_for_polly_task_def)
next
  assume "reports_failed env task_id (length (poll_log w))"
  then show "fst (wait_for_polly_task env task_id w) =
        Inl (Exception (''Speech synthesis task failed: '' @ task_id))"
    unfolding wait_for_polly_task_def by (intro wait_loop_failed) simp_all
next
  show "Exception (''Speech synthesis task timed out: '' @ task_id) \<noteq>
     Exception (''Speech synthesis task failed: '' @ task_id)"
    by simp
qed

theorem polly_wait_timed_out_witness:
  "pending (quiet_polly_env in_progress) ''t1'' 0 \<and>
   fst (wait_for_polly_task (quiet_polly_env in_progress) ''t1'' store_audio) =
     Inl (Exception ''Speech synthesis task timed out: t1'') \<and>
   clock store_audio + 300 * 1000 \<le> clock (snd (wait_for_polly_task (quiet_polly_env in_progress) ''t1'' store_audio))"
  using polly_wait_timed_out [of store_audio "quiet_polly_env in_progress" "''t1''"]
  by (simp add: pending_def quiet_polly_env_def in_progress_def)


lemmas polly_defs = rename_to_audio_mp3_def s3_copy_object_def s3_delete_object_def quiet_polly_env_def
  store_audio_def store_def Let_def

text \<open>
  C6 (as the code has it). With the source object present under a key other than the
  canonical one, and the two storage calls raising nothing of their own,
  \<open>rename_to_audio_mp3\<close> leaves the source's bytes under
  \<open>download/<reference_key>/Audio.mp3\<close> and removes the source; run again with the same
  arguments it raises the storage error for the missing source and leaves the store,
  the canonical key with it, as the first run left it.
\<close>

theorem finalize_rerun_raises:
  assumes "s3_copy_fault env bucket source_key (''download/'' @ reference_key @ ''/Audio.mp3'') = None"
    and "s3_delete_fault env bucket source_key = None"
    and "objects w (bucket, source_key) = Some content"
    and "source_key \<noteq> ''download/'' @ reference_key @ ''/Audio.mp3''"
  shows "fst (rename_to_audio_mp3 env bucket source_key reference_key w) =
           Inr (''download/'' @ reference_key @ ''/Audio.mp3'') \<and>
         objects (snd (rename_to_audio_mp3 env bucket source_key reference_key w))
           (bucket, ''download/'' @ reference_key @ ''/Audio.mp3'') = Some content \<and>
         objects (snd (rename_to_audio_mp3 env bucket source_key reference_key w)) (bucket, source_key) = None \<and>
         rename_to_audio_mp3 env bucket source_key reference_key
             (snd (rename_to_audio_mp3 env bucket source_key reference_key w)) =
           (Inl (ClientError ''NoSuchKey''), snd (rename_to_audio_mp3 env bucket source_key reference_key w))"
  using assms
  by (simp add: rename_to_audio_mp3_def s3_copy_object_def s3_delete_object_def Let_def)

theorem finalize_rerun_raises_witness:
  "objects store_audio (''b'', ''download/r1/chunk_0_.t1.mp3'') = Some ''mp3'' \<and>
   ''download/r1/chunk_0_.t1.mp3'' \<noteq> ''download/'' @ ''r1'' @ ''/Audio.mp3'' \<and>
   fst (rename_to_audio_mp3 (quiet_polly_env in_progress) ''b'' ''download/r1/chunk_0_.t1.mp3'' ''r1'' store_audio) =
     Inr ''download/r1/Audio.mp3'' \<and>
   objects (snd (rename_to_audio_mp3 (quiet_polly_env in_progress) ''b'' ''download/r1/chunk_0_.t1.mp3'' ''r1'' store_audio))
     (''b'', ''download/r1/Audio.mp3'') = Some ''mp3''"
  using finalize_rerun_raises [of "quiet_polly_env in_progress" "''b''" "''download/r1/chunk_0_.t1.mp3''" "''r1''"
      store_audio "''mp3''"]
  by (simp add: polly_defs)


text \<open>
  C6 as stated fails: the second run with the same arguments ends in an exception.
\<close>

theorem finalize_rerun_counterexample:
  "fst (rename_to_audio_mp3 (quiet_polly_env in_progress) ''b'' ''download/r1/chunk_0_.t1.mp3'' ''r1'' store_audio) =
     Inr ''download/r1/Audio.mp3'' \<and>
   fst (rename_to_audio_mp3 (quiet_polly_env in_progress) ''b'' ''download/r1/chunk_0_.t1.mp3'' ''r1''
     (snd (rename_to_audio_mp3 (quiet_polly_env in_progress) ''b'' ''download/r1/chunk_0_.t1.mp3'' ''r1'' store_audio))) =
     Inl (ClientError ''NoSuchKey'')"
  by (simp add: polly_defs)




section \<open>Properties of the rasterize stage\<close>

lemma py_repr_examples:
  "py_repr ''reference_key'' = [CHR 0x27] @ ''reference_key'' @ [CHR 0x27]"
  "py_repr [CHR ''a'', CHR 0x27, CHR ''b''] = [CHR 0x22, CHR ''a'', CHR 0x27, CHR ''b'', CHR 0x22]"
  "py_repr [CHR ''a'', CHR 0x27, CHR 0x22] = [CHR 0x27, CHR ''a'', CHR 0x5C, CHR 0x27, CHR 0x22, CHR 0x27]"
  "py_repr [CHR ''x'', CHR 0x7F, CHR 0xA0, CHR 0xAD, CHR 0xE9, CHR 0x09, CHR 0x22] =
     [CHR 0x27, CHR ''x'', CHR 0x5C, CHR ''x'', CHR ''7'', CHR ''f'', CHR 0x5C, CHR ''x'', CHR ''a'', CHR ''0'',
      CHR 0x5C, CHR ''x'', CHR ''a'', CHR ''d'', CHR 0xE9, CHR 0x5C, CHR ''t'', CHR 0x22, CHR 0x27]"
  by (simp_all add: py_repr_def repr_char_def hex2_def Let_def)

text \<open>
  The pages of a task rasterized from a page number that is not negative are stored under
  the keys \<open>page_key\<close> gives.
\<close>

lemma image_key_page_key:
  "image_key reference_key (int i + int start_page) = page_key reference_key (i + start_page)"
  by (simp add: image_key_def page_key_def str_int_def nat_int_add)

text \<open>
  A run of the handler on task \<open>r1\<close>: the document is rasterized, its page is stored as
  page 1, the status is written and the notification for the next stage is published.
\<close>

lemma rasterize_run:
  "fst (rz_lambda_handler quiet_rz_env rasterize_context (NewImage task_r1) store_pdf) =
     Inr \<lparr>statusCode = 200,
          body = Dumps (JObj [(''message'', JStr ''PDF processed and images uploaded successfully!''),
                              (''reference_key'', JStr ''r1''),
                              (''pages_processed'', JNum 1),
                              (''images_uploaded'', JArr [JStr ''images/r1/page_1.png''])])\<rparr>"
  "status_of (fst (snd (rz_lambda_handler quiet_rz_env rasterize_context (NewImage task_r1) store_pdf))) ''r1'' =
     Some ''pdf-to-images conversion is completed''"
  "objects (fst (snd (rz_lambda_handler quiet_rz_env rasterize_context (NewImage task_r1) store_pdf)))
     (''b'', ''images/r1/page_1.png'') = Some ''pdf''"
  "snd (snd (rz_lambda_handler quiet_rz_env rasterize_context (NewImage task_r1) store_pdf)) =
     [(''arn:aws:sns:eu-west-1:123456789012:pages'',
       JObj [(''reference_key'', JStr ''r1''), (''bucket'', JStr ''b''),
             (''images'', JArr [JStr ''images/r1/page_1.png''])])]"
proof -
  have arn: "sns_topic_arn quiet_rz_env rasterize_context = Inr ''arn:aws:sns:eu-west-1:123456789012:pages''"
    by (simp add: sns_topic_arn_def quiet_rz_env_def rasterize_context_def index_def)
  have rk: "attribute_S task_r1 ''reference_key'' = Inr ''r1''"
    by (simp add: attribute_S_def task_r1_def)
  have rd: "read_task quiet_rz_env task_r1 = Inr (''b'', ''upload/r1/doc.pdf'', 1, 2)"
    by (simp add: read_task_def attribute_S_def task_r1_def parse_s3_path_def quiet_rz_env_def)
  have dl: "download_fileobj quiet_rz_env store_pdf ''b'' ''upload/r1/doc.pdf'' = Inr ''pdf''"
    by (simp add: download_fileobj_def quiet_rz_env_def store_pdf_def store_def)
  have cv: "convert_from_path quiet_rz_env ''pdf'' 1 2 = Inr [Inr ''pdf'']"
    by (simp add: quiet_rz_env_def)
  have key: "image_key ''r1'' 1 = ''images/r1/page_1.png''"
    by (simp add: image_key_def str_int_def str_nat.simps char_of_def bit_0)
  have up: "upload_images quiet_rz_env ''b'' ''r1'' 1 0 [Inr ''pdf''] [] store_pdf =
      ([''images/r1/page_1.png''],
       store_pdf\<lparr>objects := (objects store_pdf)((''b'', ''images/r1/page_1.png'') \<mapsto> ''pdf'')\<rparr>)"
    by (simp add: key quiet_rz_env_def)
  have h: "rz_lambda_handler quiet_rz_env rasterize_context (NewImage task_r1) store_pdf =
     (Inr \<lparr>statusCode = 200,
            body = Dumps (JObj [(''message'', JStr ''PDF processed and images uploaded successfully!''),
                                (''reference_key'', JStr ''r1''),
                                (''pages_processed'', JNum 1),
                                (''images_uploaded'', JArr [JStr ''images/r1/page_1.png''])])\<rparr>,
      rz_update_dynamodb_status quiet_rz_env ''r1'' ''pdf-to-images conversion is completed''
        (store_pdf\<lparr>objects := (objects store_pdf)((''b'', ''images/r1/page_1.png'') \<mapsto> ''pdf'')\<rparr>),
      [(''arn:aws:sns:eu-west-1:123456789012:pages'',
        JObj [(''reference_key'', JStr ''r1''), (''bucket'', JStr ''b''),
              (''images'', JArr [JStr ''images/r1/page_1.png''])])])"
    by (simp add: rz_lambda_handler_def arn rk rz_process_def rd dl cv Let_def)
      (simp add: quiet_rz_env_def key)
  show "fst (rz_lambda_handler quiet_rz_env rasterize_context (NewImage task_r1) store_pdf) =
     Inr \<lparr>statusCode = 200,
          body = Dumps (JObj [(''message'', JStr ''PDF processed and images uploaded successfully!''),
                              (''reference_key'', JStr ''r1''),
                              (''pages_processed'', JNum 1),
                              (''images_uploaded'', JArr [JStr ''images/r1/page_1.png''])])\<rparr>"
    by (simp add: h)
  show "status_of (fst (snd (rz_lambda_handler quiet_rz_env rasterize_context (NewImage task_r1) store_pdf))) ''r1'' =
     Some ''pdf-to-images conversion is completed''"
    unfolding h
    by (simp add: rz_update_dynamodb_status_def quiet_rz_env_def status_of_def update_item_def
        store_pdf_def store_def)
  show "objects (fst (snd (rz_lambda_handler quiet_rz_env rasterize_context (NewImage task_r1) store_pdf)))
     (''b'', ''images/r1/page_1.png'') = Some ''pdf''"
    unfolding h by (simp add: rz_update_dynamodb_status_def quiet_rz_env_def)
  show "snd (snd (rz_lambda_handler quiet_rz_env rasterize_context (NewImage task_r1) store_pdf)) =
     [(''arn:aws:sns:eu-west-1:123456789012:pages'',
       JObj [(''reference_key'', JStr ''r1''), (''bucket'', JStr ''b''),
             (''images'', JArr [JStr ''images/r1/page_1.png''])])]"
    by (simp add: h)
qed


section \<open>Faults of the stage handlers\<close>












section \<open>Properties of the build trigger\<close>

lemma monitor_build_ends:
  assumes "\<forall>k<n. in_progress_reply (batch_get_builds env b (polled w b + k))"
    and "failure_reply (batch_get_builds env b (polled w b + n)) \<or>
         success_reply (batch_get_builds env b (polled w b + n))"
  shows "monitor_build env b w =
           Some (Inr (success_reply (batch_get_builds env b (polled w b + n))),
                 w\<lparr>polled := (polled w)(b := polled w b + Suc n),
                   sleeps := sleeps w @ replicate (Suc n) 10\<rparr>)"
  using assms
proof (induction n arbitrary: w)
  case 0
  then show ?case
    by (subst monitor_build.simps)
       (auto simp: failure_reply_def success_reply_def split: sum.splits list.splits)
next
  case (Suc n)
  let ?w = "w\<lparr>polled := (polled w)(b := Suc (polled w b)), sleeps := sleeps w @ [10]\<rparr>"
  from Suc.prems(1) have "in_progress_reply (batch_get_builds env b (polled w b))"
    by (metis add.right_neutral zero_less_Suc)
  then have step: "monitor_build env b w = monitor_build env b ?w"
    by (subst monitor_build.simps) (auto simp: in_progress_reply_def split: sum.splits list.splits)
  have a: "\<forall>k<n. in_progress_reply (batch_get_builds env b (polled ?w b + k))"
  proof (intro allI impI)
    fix k assume "k < n"
    then have "in_progress_reply (batch_get_builds env b (polled w b + Suc k))"
      using Suc.prems(1) [rule_format, of "Suc k"] by simp
    then show "in_progress_reply (batch_get_builds env b (polled ?w b + k))" by simp
  qed
  have f: "failure_reply (batch_get_builds env b (polled ?w b + n)) \<or>
         success_reply (batch_get_builds env b (polled ?w b + n))"
    using Suc.prems(2) by simp
  have w: "?w\<lparr>polled := (polled ?w)(b := polled ?w b + Suc n), sleeps := sleeps ?w @ replicate (Suc n) 10\<rparr> =
      w\<lparr>polled := (polled w)(b := polled w b + Suc (Suc n)), sleeps := sleeps w @ replicate (Suc (Suc n)) 10\<rparr>"
    by (rule cb_world.equality) (simp_all add: replicate_app_Cons_same fun_eq_iff)
  have r: "polled ?w b + n = polled w b + Suc n" by simp
  from Suc.IH [OF a f] show ?case
    unfolding step w r .
qed

lemma monitor_fresh_fails:
  assumes "polled w b = 0" and "build_fails env b n"
  shows "\<exists>w1. monitor_build env b w = Some (Inr False, w1) \<and> submissions w1 = submissions w \<and>
              backoffs w1 = backoffs w \<and> polled w1 = (polled w)(b := Suc n)"
proof -
  have s: "\<not> success_reply (batch_get_builds env b n)"
    using assms(2) by (auto simp: build_fails_def failure_reply_def success_reply_def split: sum.splits list.splits)
  have "monitor_build env b w =
           Some (Inr (success_reply (batch_get_builds env b (polled w b + n))),
                 w\<lparr>polled := (polled w)(b := polled w b + Suc n),
                   sleeps := sleeps w @ replicate (Suc n) 10\<rparr>)"
    using assms by (intro monitor_build_ends) (simp_all add: build_fails_def)
  with s assms(1) show ?thesis by (simp add: backoffs_def)
qed

lemma monitor_fresh_succeeds:
  assumes "polled w b = 0" and "build_succeeds env b n"
  shows "\<exists>w1. monitor_build env b w = Some (Inr True, w1) \<and> submissions w1 = submissions w \<and>
              backoffs w1 = backoffs w \<and> polled w1 = (polled w)(b := Suc n)"
proof -
  have s: "success_reply (batch_get_builds env b n)"
    using assms(2) by (simp add: build_succeeds_def)
  have "monitor_build env b w =
           Some (Inr (success_reply (batch_get_builds env b (polled w b + n))),
                 w\<lparr>polled := (polled w)(b := polled w b + Suc n),
                   sleeps := sleeps w @ replicate (Suc n) 10\<rparr>)"
    using assms by (intro monitor_build_ends) (simp_all add: build_succeeds_def)
  with s assms(1) show ?thesis by (simp add: backoffs_def)
qed

lemma round_succeeds:
  assumes "attempt \<le> max_attempts" and "polled w b = 0" and "build_succeeds env b n"
  shows "\<exists>w1. attempt_loop env p max_attempts attempt b w = Some (Inr (True, attempt, b), w1) \<and>
              submissions w1 = submissions w \<and> backoffs w1 = backoffs w \<and>
              polled w1 = (polled w)(b := Suc n)"
proof -
  from monitor_fresh_succeeds [OF assms(2,3)] obtain w1 where
    m: "monitor_build env b w = Some (Inr True, w1)" "submissions w1 = submissions w" "backoffs w1 = backoffs w"
      "polled w1 = (polled w)(b := Suc n)"
    by blast
  have "attempt_loop env p max_attempts attempt b w = Some (Inr (True, attempt, b), w1)"
    using assms(1) m(1) by (subst attempt_loop.simps) simp
  with m show ?thesis by blast
qed

lemma round_fails_last:
  assumes "attempt = max_attempts" and "polled w b = 0" and "build_fails env b n"
  shows "\<exists>w1. attempt_loop env p max_attempts attempt b w = Some (Inr (False, Suc max_attempts, b), w1) \<and>
              submissions w1 = submissions w \<and> backoffs w1 = backoffs w \<and>
              polled w1 = (polled w)(b := Suc n)"
proof -
  from monitor_fresh_fails [OF assms(2,3)] obtain w1 where
    m: "monitor_build env b w = Some (Inr False, w1)" "submissions w1 = submissions w" "backoffs w1 = backoffs w"
      "polled w1 = (polled w)(b := Suc n)"
    by blast
  have "attempt_loop env p max_attempts (Suc max_attempts) b w1 = Some (Inr (False, Suc max_attempts, b), w1)"
    by (subst attempt_loop.simps) simp
  then have "attempt_loop env p max_attempts attempt b w = Some (Inr (False, Suc max_attempts, b), w1)"
    using assms(1) m(1) by (subst attempt_loop.simps) simp
  with m show ?thesis by blast
qed

lemma round_fails_resubmits:
  assumes "attempt < max_attempts" and "polled w b = 0" and "build_fails env b n"
    and "start_build env p (submissions w) = Inr nb"
  shows "\<exists>w1. attempt_loop env p max_attempts attempt b w = attempt_loop env p max_attempts (Suc attempt) nb w1 \<and>
              submissions w1 = Suc (submissions w) \<and> backoffs w1 = Suc (backoffs w) \<and>
              polled w1 = (polled w)(b := Suc n)"
proof -
  from monitor_fresh_fails [OF assms(2,3)] obtain w1 where
    m: "monitor_build env b w = Some (Inr False, w1)" "submissions w1 = submissions w" "backoffs w1 = backoffs w"
      "polled w1 = (polled w)(b := Suc n)"
    by blast
  let ?w2 = "w1\<lparr>sleeps := sleeps w1 @ [30], submissions := Suc (submissions w)\<rparr>"
  have "attempt_loop env p max_attempts attempt b w = attempt_loop env p max_attempts (Suc attempt) nb ?w2"
    using assms(1,4) m(1,2) by (subst attempt_loop.simps) (simp add: submit_build_def)
  moreover have "submissions ?w2 = Suc (submissions w)" using m(2) by simp
  moreover have "backoffs ?w2 = Suc (backoffs w)" using m(3) by (simp add: backoffs_def)
  moreover have "polled ?w2 = (polled w)(b := Suc n)" using m(4) by simp
  ultimately show ?thesis by blast
qed

lemma str_nat_digits:
  "str_nat 1 = ''1''" "str_nat 2 = ''2''" "str_nat 3 = ''3''"
  "str_nat (Suc 0) = ''1''" "str_nat (Suc (Suc 0)) = ''2''" "str_nat (Suc (Suc (Suc 0))) = ''3''"
  by (simp_all add: str_nat.simps char_of_def bit_0)


text \<open>
  C9. The handler run from its start, with a project name, on a build service whose
  submissions succeed and give distinct builds \<open>b 0\<close>, \<open>b 1\<close>, \<open>b 2\<close>. \<open>j\<close> is the number of
  builds that fail before the first one that succeeds (\<open>j = 3\<close>: all three fail). When
  all three fail, the handler has submitted exactly 3 builds, has waited the 30 seconds
  twice (once between two attempts) and returns the 500 response of overall failure.
  When build \<open>b j\<close> succeeds, \<open>j < 3\<close>, the handler has submitted \<open>j + 1\<close> builds, has
  waited \<open>j\<close> times and returns the success response naming \<open>b j\<close> and attempt \<open>j + 1\<close>: no
  build is submitted after a success. In both cases every build submitted has been
  queried up to its final reply, each attempt watching its own new build, and no other
  build has been queried.
\<close>

theorem retry_three_submissions:
  assumes "event ''project_name'' = Some p" and "p \<noteq> []"
    and "j \<le> 3"
    and "\<forall>i. i \<le> j \<and> i < 3 \<longrightarrow> start_build env p i = Inr (b i)"
    and "b 0 \<noteq> b 1 \<and> b 0 \<noteq> b 2 \<and> b 1 \<noteq> b 2"
    and "\<forall>i<j. build_fails env (b i) (n i)"
    and "j < 3 \<longrightarrow> build_succeeds env (b j) (n j)"
  shows "\<exists>w1. cb_lambda_handler env event environ cb_start =
           Some (Inr (if j < 3
                      then \<lparr>statusCode = 200,
                            body = Dumps (JObj [(''buildId'', JStr (b j)), (''status'', JStr ''SUCCESS''),
                              (''message'', JStr (''Build completed successfully on attempt '' @ str_nat (Suc j)))])\<rparr>
                      else \<lparr>statusCode = 500,
                            body = Plain ''Failed to complete build successfully after 3 attempts''\<rparr>),
                 w1) \<and>
           submissions w1 = (if j < 3 then Suc j else 3) \<and>
           backoffs w1 = (if j < 3 then j else 2) \<and>
           (\<forall>i. i \<le> j \<and> i < 3 \<longrightarrow> polled w1 (b i) = Suc (n i)) \<and>
           (\<forall>x. (\<forall>i. i \<le> j \<and> i < 3 \<longrightarrow> x \<noteq> b i) \<longrightarrow> polled w1 x = 0)"
proof -
  let ?w0 = "cb_start\<lparr>submissions := Suc 0\<rparr>"
  have s0: "start_build env p 0 = Inr (b 0)" using assms(3,4) by simp
  have h: "cb_lambda_handler env event environ cb_start =
      (case attempt_loop env p 3 1 (b 0) ?w0 of
         None \<Rightarrow> None
       | Some (Inl e, w2) \<Rightarrow> Some (Inl e, w2)
       | Some (Inr (success, attempt, final_build_id), w2) \<Rightarrow>
           if \<not> success
           then Some (Inr \<lparr>statusCode = 500,
                           body = Plain (''Failed to complete build successfully after '' @ str_nat 3 @ '' attempts'')\<rparr>, w2)
           else Some (Inr \<lparr>statusCode = 200,
                           body = Dumps (JObj [(''buildId'', JStr final_build_id), (''status'', JStr ''SUCCESS''),
                             (''message'', JStr (''Build completed successfully on attempt '' @ str_nat attempt))])\<rparr>,
                      w2))"
    using assms(1,2) s0
    by (simp add: cb_lambda_handler_def submit_build_def cb_start_def)
  have p0: "polled ?w0 = (\<lambda>x. 0)" "submissions ?w0 = 1" "backoffs ?w0 = 0"
    by (simp_all add: cb_start_def backoffs_def)
  have z0: "polled ?w0 (b 0) = 0" by (simp add: p0)
  consider "j = 0" | "j = 1" | "j = 2" | "j = 3" using assms(3) by linarith
  then show ?thesis
  proof cases
    case 1
    with assms(7) have "build_succeeds env (b 0) (n 0)" by simp
    from round_succeeds [OF _ z0 this, of 1 3 p] obtain w1 where r:
      "attempt_loop env p 3 1 (b 0) ?w0 = Some (Inr (True, 1, b 0), w1)"
      "submissions w1 = submissions ?w0" "backoffs w1 = backoffs ?w0"
      and pws: "polled w1 = (polled ?w0)(b 0 := Suc (n 0))"
      by auto
    have pw: "polled w1 = (\<lambda>x. 0)(b 0 := Suc (n 0))"
      using pws p0(1) by simp
    have A: "\<forall>i. i \<le> j \<and> i < 3 \<longrightarrow> polled w1 (b i) = Suc (n i)"
    proof (intro allI impI)
      fix i :: nat assume "i \<le> j \<and> i < 3"
      with 1 have "i = 0" by auto
      then show "polled w1 (b i) = Suc (n i)" using pw assms(5) by auto
    qed
    have B: "\<forall>x. (\<forall>i. i \<le> j \<and> i < 3 \<longrightarrow> x \<noteq> b i) \<longrightarrow> polled w1 x = 0"
    proof (intro allI impI)
      fix x assume H: "\<forall>i. i \<le> j \<and> i < 3 \<longrightarrow> x \<noteq> b i"
      from H [rule_format, of 0] 1 have "x \<noteq> b 0" by auto
      then show "polled w1 x = 0" using pw by simp
    qed
    from r 1 p0 have "cb_lambda_handler env event environ cb_start =
        Some (Inr \<lparr>statusCode = 200,
                    body = Dumps (JObj [(''buildId'', JStr (b j)), (''status'', JStr ''SUCCESS''),
                      (''message'', JStr (''Build completed successfully on attempt '' @ str_nat (Suc j)))])\<rparr>, w1)"
      "submissions w1 = Suc j" "backoffs w1 = j"
      by (simp_all add: h str_nat_digits)
    with A B 1 show ?thesis by (intro exI [of _ w1]) simp
  next
    case 2
    with assms(6,7) have f0: "build_fails env (b 0) (n 0)" and g1: "build_succeeds env (b 1) (n 1)"
      by simp_all
    have s1: "start_build env p (submissions ?w0) = Inr (b 1)" using assms(4) 2 p0 by simp
    from round_fails_resubmits [OF _ z0 f0 s1, of 1 3] obtain w1 where w1:
      "attempt_loop env p 3 1 (b 0) ?w0 = attempt_loop env p 3 (Suc 1) (b 1) w1"
      "submissions w1 = Suc (submissions ?w0)" "backoffs w1 = Suc (backoffs ?w0)"
      "polled w1 = (polled ?w0)(b 0 := Suc (n 0))"
      by auto
    have q1: "polled w1 (b 1) = 0" using w1(4) assms(5) p0(1) by auto
    from round_succeeds [OF _ q1 g1, of "Suc 1" 3 p] obtain w2 where r:
      "attempt_loop env p 3 (Suc 1) (b 1) w1 = Some (Inr (True, Suc 1, b 1), w2)"
      "submissions w2 = submissions w1" "backoffs w2 = backoffs w1"
      and pw2: "polled w2 = (polled w1)(b 1 := Suc (n 1))"
      by auto
    note pws = pw2 [unfolded w1(4)]
    have pw: "polled w2 = (\<lambda>x. 0)(b 0 := Suc (n 0), b 1 := Suc (n 1))"
      using pws p0(1) by simp
    have A: "\<forall>i. i \<le> j \<and> i < 3 \<longrightarrow> polled w2 (b i) = Suc (n i)"
    proof (intro allI impI)
      fix i :: nat assume "i \<le> j \<and> i < 3"
      with 2 have "i = 0 \<or> i = 1" by auto
      then show "polled w2 (b i) = Suc (n i)" using pw assms(5) by auto
    qed
    have B: "\<forall>x. (\<forall>i. i \<le> j \<and> i < 3 \<longrightarrow> x \<noteq> b i) \<longrightarrow> polled w2 x = 0"
    proof (intro allI impI)
      fix x assume H: "\<forall>i. i \<le> j \<and> i < 3 \<longrightarrow> x \<noteq> b i"
      from H [rule_format, of 0] H [rule_format, of 1] 2 have "x \<noteq> b 0" "x \<noteq> b 1" by auto
      then show "polled w2 x = 0" using pw by simp
    qed
    from r w1 2 p0 have "cb_lambda_handler env event environ cb_start =
        Some (Inr \<lparr>statusCode = 200,
                    body = Dumps (JObj [(''buildId'', JStr (b j)), (''status'', JStr ''SUCCESS''),
                      (''message'', JStr (''Build completed successfully on attempt '' @ str_nat (Suc j)))])\<rparr>, w2)"
      "submissions w2 = Suc j" "backoffs w2 = j"
      by (simp_all add: h str_nat_digits)
    with A B 2 show ?thesis by (intro exI [of _ w2]) simp
  next
    case 3
    with assms(6,7) have f0: "build_fails env (b 0) (n 0)" and f1: "build_fails env (b 1) (n 1)"
      and g2: "build_succeeds env (b 2) (n 2)"
      by simp_all
    have s1: "start_build env p (submissions ?w0) = Inr (b 1)" using assms(4) 3 p0 by simp
    from round_fails_resubmits [OF _ z0 f0 s1, of 1 3] obtain w1 where w1:
      "attempt_loop env p 3 1 (b 0) ?w0 = attempt_loop env p 3 (Suc 1) (b 1) w1"
      "submissions w1 = Suc (submissions ?w0)" "backoffs w1 = Suc (backoffs ?w0)"
      "polled w1 = (polled ?w0)(b 0 := Suc (n 0))"
      by auto
    have q1: "polled w1 (b 1) = 0" using w1(4) assms(5) p0(1) by auto
    have "submissions w1 = 2" using w1(2) p0(2) by simp
    then have s2: "start_build env p (submissions w1) = Inr (b 2)"
      using assms(4) [rule_format, of 2] 3 by simp
    from round_fails_resubmits [OF _ q1 f1 s2, of "Suc 1" 3] obtain w2 where w2:
      "attempt_loop env p 3 (Suc 1) (b 1) w1 = attempt_loop env p 3 (Suc (Suc 1)) (b 2) w2"
      "submissions w2 = Suc (submissions w1)" "backoffs w2 = Suc (backoffs w1)"
      "polled w2 = (polled w1)(b 1 := Suc (n 1))"
      by auto
    have q2: "polled w2 (b 2) = 0" using w2(4) w1(4) assms(5) p0(1) by auto
    from round_succeeds [OF _ q2 g2, of "Suc (Suc 1)" 3 p] obtain w3 where r:
      "attempt_loop env p 3 (Suc (Suc 1)) (b 2) w2 = Some (Inr (True, Suc (Suc 1), b 2), w3)"
      "submissions w3 = submissions w2" "backoffs w3 = backoffs w2"
      and pw3: "polled w3 = (polled w2)(b 2 := Suc (n 2))"
      by auto
    note pws = pw3 [unfolded w2(4) w1(4)]
    have pw: "polled w3 = (\<lambda>x. 0)(b 0 := Suc (n 0), b 1 := Suc (n 1), b 2 := Suc (n 2))"
      using pws p0(1) by simp
    have A: "\<forall>i. i \<le> j \<and> i < 3 \<longrightarrow> polled w3 (b i) = Suc (n i)"
    proof (intro allI impI)
      fix i :: nat assume "i \<le> j \<and> i < 3"
      with 3 have "i = 0 \<or> i = 1 \<or> i = 2" by auto
      then show "polled w3 (b i) = Suc (n i)" using pw assms(5) by auto
    qed
    have B: "\<forall>x. (\<forall>i. i \<le> j \<and> i < 3 \<longrightarrow> x \<noteq> b i) \<longrightarrow> polled w3 x = 0"
    proof (intro allI impI)
      fix x assume H: "\<forall>i. i \<le> j \<and> i < 3 \<longrightarrow> x \<noteq> b i"
      from H [rule_format, of 0] H [rule_format, of 1] H [rule_format, of 2] 3 have "x \<noteq> b 0" "x \<noteq> b 1" "x \<noteq> b 2" by auto
      then show "polled w3 x = 0" using pw by simp
    qed
    from r w1 w2 3 p0 have "cb_lambda_handler env event environ cb_start =
        Some (Inr \<lparr>statusCode = 200,
                    body = Dumps (JObj [(''buildId'', JStr (b j)), (''status'', JStr ''SUCCESS''),
                      (''message'', JStr (''Build completed successfully on attempt '' @ str_nat (Suc j)))])\<rparr>, w3)"
      "submissions w3 = Suc j" "backoffs w3 = j"
      by (simp_all add: h str_nat_digits)
    with A B 3 show ?thesis by (intro exI [of _ w3]) simp
  next
    case 4
    with assms(6) have f0: "build_fails env (b 0) (n 0)" and f1: "build_fails env (b 1) (n 1)"
      and f2: "build_fails env (b 2) (n 2)"
      by simp_all
    have s1: "start_build env p (submissions ?w0) = Inr (b 1)" using assms(4) 4 p0 by simp
    from round_fails_resubmits [OF _ z0 f0 s1, of 1 3] obtain w1 where w1:
      "attempt_loop env p 3 1 (b 0) ?w0 = attempt_loop env p 3 (Suc 1) (b 1) w1"
      "submissions w1 = Suc (submissions ?w0)" "backoffs w1 = Suc (backoffs ?w0)"
      "polled w1 = (polled ?w0)(b 0 := Suc (n 0))"
      by auto
    have q1: "polled w1 (b 1) = 0" using w1(4) assms(5) p0(1) by auto
    have "submissions w1 = 2" using w1(2) p0(2) by simp
    then have s2: "start_build env p (submissions w1) = Inr (b 2)"
      using assms(4) [rule_format, of 2] 4 by simp
    from round_fails_resubmits [OF _ q1 f1 s2, of "Suc 1" 3] obtain w2 where w2:
      "attempt_loop env p 3 (Suc 1) (b 1) w1 = attempt_loop env p 3 (Suc (Suc 1)) (b 2) w2"
      "submissions w2 = Suc (submissions w1)" "backoffs w2 = Suc (backoffs w1)"
      "polled w2 = (polled w1)(b 1 := Suc (n 1))"
      by auto
    have q2: "polled w2 (b 2) = 0" using w2(4) w1(4) assms(5) p0(1) by auto
    from round_fails_last [OF _ q2 f2, of "Suc (Suc 1)" 3 p] obtain w3 where r:
      "attempt_loop env p 3 (Suc (Suc 1)) (b 2) w2 = Some (Inr (False, Suc 3, b 2), w3)"
      "submissions w3 = submissions w2" "backoffs w3 = backoffs w2"
      and pw3: "polled w3 = (polled w2)(b 2 := Suc (n 2))"
      by auto
    note pws = pw3 [unfolded w2(4) w1(4)]
    have pw: "polled w3 = (\<lambda>x. 0)(b 0 := Suc (n 0), b 1 := Suc (n 1), b 2 := Suc (n 2))"
      using pws p0(1) by simp
    have A: "\<forall>i. i \<le> j \<and> i < 3 \<longrightarrow> polled w3 (b i) = Suc (n i)"
    proof (intro allI impI)
      fix i :: nat assume "i \<le> j \<and> i < 3"
      with 4 have "i = 0 \<or> i = 1 \<or> i = 2" by auto
      then show "polled w3 (b i) = Suc (n i)" using pw assms(5) by auto
    qed
    have B: "\<forall>x. (\<forall>i. i \<le> j \<and> i < 3 \<longrightarrow> x \<noteq> b i) \<longrightarrow> polled w3 x = 0"
    proof (intro allI impI)
      fix x assume H: "\<forall>i. i \<le> j \<and> i < 3 \<longrightarrow> x \<noteq> b i"
      from H [rule_format, of 0] H [rule_format, of 1] H [rule_format, of 2] 4 have "x \<noteq> b 0" "x \<noteq> b 1" "x \<noteq> b 2" by auto
      then show "polled w3 x = 0" using pw by simp
    qed
    from r w1 w2 4 p0 have "cb_lambda_handler env event environ cb_start =
        Some (Inr \<lparr>statusCode = 500,
                    body = Plain ''Failed to complete build successfully after 3 attempts''\<rparr>, w3)"
      "submissions w3 = 3" "backoffs w3 = 2"
      by (simp_all add: h str_nat_digits)
    with A B 4 show ?thesis by (intro exI [of _ w3]) simp
  qed
qed

theorem retry_three_submissions_witness:
  "build_fails failing_builds (build_name 0) 0 \<and>
   build_fails failing_builds (build_name 1) 0 \<and>
   build_fails failing_builds (build_name 2) 0 \<and>
   map_option fst (cb_lambda_handler failing_builds [''project_name'' \<mapsto> ''docs''] None cb_start) =
     Some (Inr \<lparr>statusCode = 500, body = Plain ''Failed to complete build successfully after 3 attempts''\<rparr>) \<and>
   map_option (submissions \<circ> snd) (cb_lambda_handler failing_builds [''project_name'' \<mapsto> ''docs''] None cb_start) = Some 3 \<and>
   map_option (backoffs \<circ> snd) (cb_lambda_handler failing_builds [''project_name'' \<mapsto> ''docs''] None cb_start) = Some 2 \<and>
   build_fails second_build_succeeds (build_name 0) 0 \<and>
   build_succeeds second_build_succeeds (build_name 1) 2 \<and>
   map_option fst (cb_lambda_handler second_build_succeeds [''project_name'' \<mapsto> ''docs''] None cb_start) =
     Some (Inr \<lparr>statusCode = 200,
                body = Dumps (JObj [(''buildId'', JStr ''build-1''), (''status'', JStr ''SUCCESS''),
                  (''message'', JStr ''Build completed successfully on attempt 2'')])\<rparr>) \<and>
   map_option (submissions \<circ> snd) (cb_lambda_handler second_build_succeeds [''project_name'' \<mapsto> ''docs''] None cb_start) = Some 2 \<and>
   map_option (backoffs \<circ> snd) (cb_lambda_handler second_build_succeeds [''project_name'' \<mapsto> ''docs''] None cb_start) = Some 1"
proof -
  have n: "build_name 0 = ''build-0''" "build_name 1 = ''build-1''" "build_name 2 = ''build-2''"
    "build_name (Suc 0) = ''build-1''"
    by (simp_all add: build_name_def str_nat.simps char_of_def bit_0)
  have f: "build_fails failing_builds (build_name i) 0" for i
    by (simp add: build_fails_def failing_builds_def failure_reply_def)
  have d: "build_name 0 \<noteq> build_name 1 \<and> build_name 0 \<noteq> build_name 2 \<and> build_name 1 \<noteq> build_name 2"
    by (simp add: n)
  have s: "\<forall>i. i \<le> 3 \<and> i < 3 \<longrightarrow> start_build failing_builds ''docs'' i = Inr (build_name i)"
    by (simp add: failing_builds_def)
  from retry_three_submissions [of "[''project_name'' \<mapsto> ''docs'']" "''docs''" 3 failing_builds build_name "\<lambda>i. 0" None]
    f d s
  obtain w1 where a: "cb_lambda_handler failing_builds [''project_name'' \<mapsto> ''docs''] None cb_start =
      Some (Inr \<lparr>statusCode = 500, body = Plain ''Failed to complete build successfully after 3 attempts''\<rparr>, w1)"
    "submissions w1 = 3" "backoffs w1 = 2"
    by auto
  have f0: "build_fails second_build_succeeds (build_name 0) 0"
    by (simp add: build_fails_def second_build_succeeds_def failure_reply_def n)
  have g1: "build_succeeds second_build_succeeds (build_name 1) 2"
    by (simp add: build_succeeds_def second_build_succeeds_def success_reply_def in_progress_reply_def n)
  have s2: "\<forall>i. i \<le> 1 \<and> i < 3 \<longrightarrow> start_build second_build_succeeds ''docs'' i = Inr (build_name i)"
    by (simp add: second_build_succeeds_def)
  have f2: "\<forall>i<1. build_fails second_build_succeeds (build_name i) (if i = 1 then 2 else 0)"
    using f0 by simp
  from retry_three_submissions [of "[''project_name'' \<mapsto> ''docs'']" "''docs''" 1 second_build_succeeds build_name
      "\<lambda>i. if i = 1 then 2 else 0" None] f2 g1 d s2
  obtain w2 where b: "cb_lambda_handler second_build_succeeds [''project_name'' \<mapsto> ''docs''] None cb_start =
      Some (Inr \<lparr>statusCode = 200,
                body = Dumps (JObj [(''buildId'', JStr ''build-1''), (''status'', JStr ''SUCCESS''),
                  (''message'', JStr ''Build completed successfully on attempt 2'')])\<rparr>, w2)"
    "submissions w2 = 2" "backoffs w2 = 1"
    by (auto simp: n str_nat_digits)
  from a b f f0 g1 show ?thesis by simp
qed

section \<open>Properties of the client query\<close>

lemma scan_all_filter:
  "scan_all username segments items = Inr res \<Longrightarrow>
     \<exists>new. res = items @ new \<and> (\<forall>it\<in>set new. it ''Username'' = Some username)"
proof (induction username segments items rule: scan_all.induct)
  case (1 username items)
  then show ?case by simp
next
  case (2 username e segments items)
  then show ?case by simp
next
  case (3 username stored segments items)
  from 3 obtain new where "res = (items @ filter (\<lambda>it. it ''Username'' = Some username) stored) @ new"
    "\<forall>it\<in>set new. it ''Username'' = Some username"
    by auto
  then show ?case by auto
qed

lemma make_request_fields:
  "make_request it = Inr request \<Longrightarrow>
     map_of request ''TaskStatus'' =
       Some (if it ''TaskStatus'' = Some ''Voice-is-Ready'' then ''Voice-is-Ready'' else ''Work-In-Progress'') \<and>
     map_of request ''reference_key'' = it ''reference_key''"
  by (auto simp: make_request_def split: option.splits)

lemma make_requests_each:
  "make_requests items requests = Inr res \<Longrightarrow>
     \<exists>new. res = requests @ new \<and> length new = length items \<and>
           (\<forall>i<length items. make_request (items ! i) = Inr (new ! i))"
proof (induction items arbitrary: requests)
  case Nil
  then show ?case by simp
next
  case (Cons it items)
  from Cons.prems obtain request where r: "make_request it = Inr request"
    and m: "make_requests items (requests @ [request]) = Inr res"
    by (auto split: sum.splits)
  from Cons.IH [OF m] obtain new where n: "res = (requests @ [request]) @ new" "length new = length items"
    "\<forall>i<length items. make_request (items ! i) = Inr (new ! i)"
    by blast
  have "\<forall>i<length (it # items). make_request ((it # items) ! i) = Inr ((request # new) ! i)"
    using r n(3) by (auto simp: nth_Cons split: nat.splits)
  with n show ?case by (intro exI [of _ "request # new"]) simp
qed


text \<open>
  C10. Whenever \<open>get_user_requests\<close> returns its 200 response, the requests of the body
  are, one for one and in order, those of the items of the user found by the scan; each
  reports \<open>Voice-is-Ready\<close> when the stored status is \<open>Voice-is-Ready\<close> and
  \<open>Work-In-Progress\<close> for any other stored status, a failure status or a missing one
  included.
\<close>

theorem user_requests_status:
  assumes "get_user_requests segments username = Inr resp" and "statusCode resp = 200"
  shows "\<exists>items requests.
           scan_all username segments [] = Inr items \<and>
           body resp = Dumps (requests_json requests) \<and>
           length requests = length items \<and>
           (\<forall>i<length items.
              (items ! i) ''Username'' = Some username \<and>
              map_of (requests ! i) ''reference_key'' = (items ! i) ''reference_key'' \<and>
              map_of (requests ! i) ''TaskStatus'' =
                Some (if (items ! i) ''TaskStatus'' = Some ''Voice-is-Ready''
                      then ''Voice-is-Ready'' else ''Work-In-Progress''))"
proof -
  from assms obtain items where s: "scan_all username segments [] = Inr items"
    by (auto simp: get_user_requests_def split: sum.splits if_splits)
  with assms obtain requests where m: "make_requests items [] = Inr requests"
    and b: "body resp = Dumps (requests_json requests)"
    by (auto simp: get_user_requests_def split: sum.splits if_splits)
  from make_requests_each [OF m] have l: "length requests = length items"
    and e: "\<forall>i<length items. make_request (items ! i) = Inr (requests ! i)"
    by auto
  from scan_all_filter [OF s] have u: "\<forall>it\<in>set items. it ''Username'' = Some username"
    by auto
  have "\<forall>i<length items.
      (items ! i) ''Username'' = Some username \<and>
      map_of (requests ! i) ''reference_key'' = (items ! i) ''reference_key'' \<and>
      map_of (requests ! i) ''TaskStatus'' =
        Some (if (items ! i) ''TaskStatus'' = Some ''Voice-is-Ready''
              then ''Voice-is-Ready'' else ''Work-In-Progress'')"
  proof (intro allI impI)
    fix i assume i: "i < length items"
    then have "make_request (items ! i) = Inr (requests ! i)" using e by simp
    from make_request_fields [OF this] u i show
      "(items ! i) ''Username'' = Some username \<and>
       map_of (requests ! i) ''reference_key'' = (items ! i) ''reference_key'' \<and>
       map_of (requests ! i) ''TaskStatus'' =
        Some (if (items ! i) ''TaskStatus'' = Some ''Voice-is-Ready''
              then ''Voice-is-Ready'' else ''Work-In-Progress'')"
      by simp
  qed
  with s b l show ?thesis by blast
qed

theorem user_requests_status_witness:
  "get_user_requests user_table ''u'' =
     Inr \<lparr>statusCode = 200,
          body = Dumps (requests_json
            [[(''reference_key'', ''r1''), (''fileName'', ''a.pdf''), (''TaskStatus'', ''Voice-is-Ready'')],
             [(''reference_key'', ''r3''), (''fileName'', ''Unknown file''), (''TaskStatus'', ''Work-In-Progress'')],
             [(''reference_key'', ''r4''), (''fileName'', ''d.pdf''), (''TaskStatus'', ''Work-In-Progress'')],
             [(''reference_key'', ''r5''), (''fileName'', ''e.pdf''), (''TaskStatus'', ''Work-In-Progress'')]])\<rparr>"
  using user_requests_status [of user_table "''u''"
      "\<lparr>statusCode = 200,
          body = Dumps (requests_json
            [[(''reference_key'', ''r1''), (''fileName'', ''a.pdf''), (''TaskStatus'', ''Voice-is-Ready'')],
             [(''reference_key'', ''r3''), (''fileName'', ''Unknown file''), (''TaskStatus'', ''Work-In-Progress'')],
             [(''reference_key'', ''r4''), (''fileName'', ''d.pdf''), (''TaskStatus'', ''Work-In-Progress'')],
             [(''reference_key'', ''r5''), (''fileName'', ''e.pdf''), (''TaskStatus'', ''Work-In-Progress'')]])\<rparr>"]
  by (simp add: get_user_requests_def user_table_def make_request_def)


end
